theory Spec2Isabelle
  imports Main "HOL-Library.Word"
begin

section \<open>The abstract syntax tree (ast.h)\<close>

text \<open>
  A \<open>double\<close> is carried as its IEEE-754 bit pattern. The code generator never computes
  with doubles: it only embeds the literals of the tree and the constant \<open>0.0\<close> (the
  all-zero pattern) into the IR.
\<close>

type_synonym double = "64 word"

text \<open>
  One constructor per subclass of \<open>ExprAST\<close>, the arguments in the order of the C++
  constructor. \<open>IfExprAST\<close> carries the three expression members and the \<open>haveElse\<close>
  flag: the three-argument constructor sets the flag (whether or not the else
  pointer is null), the two-argument constructor clears it and leaves the pointer null.
\<close>

datatype ExprAST =
    NumberExprAST double
  | VariableExprAST string
  | UnaryExprAST char ExprAST
  | BinaryExprAST ExprAST ExprAST char
  | DeclarationExprAST ExprAST "(string \<times> ExprAST option) list"
  | CallExprAST string "ExprAST list"
  | IfExprAST ExprAST ExprAST "ExprAST option" bool
  | ForExprAST ExprAST ExprAST ExprAST ExprAST string

record PrototypeAST =
  getName :: string
  getArgs :: "string list"
  isOperatorProto :: bool
  getPrecedence :: int

record FunctionAST =
  getProto :: PrototypeAST
  getBody :: ExprAST

text \<open>The top-level nodes handed to the generator: externs and definitions.\<close>

datatype ASTNode = Prototype PrototypeAST | Function FunctionAST

section \<open>The IR objects the generator handles\<close>

text \<open>
  Objects of the IR library are handles (a number from the generator's supply of
  fresh handles) together with the attributes that never change after creation.
  The instruction list of a block is the sequence of requests the generator made to
  the IR builder while that block was the insertion point; the builder's own
  constant folding and the renaming of clashing value names are inside the IR library
  and are not part of this model.
\<close>

record Function_h =
  fn_id :: nat
  fn_name :: string
  fn_args :: "string list"

datatype AllocaInst = AllocaInst nat string

fun alloca_getName :: "AllocaInst \<Rightarrow> string" where
  "alloca_getName (AllocaInst i n) = n"

datatype Value =
    ConstantFP double
  | Argument Function_h nat
  | InstValue nat

datatype binop = FAdd | FSub | FMul | FDiv | FCmpULT | FCmpONE

datatype Instruction =
    Alloca AllocaInst
  | Load nat AllocaInst string
  | Store Value AllocaInst
  | BinOp nat binop Value Value string
  | UIToFP nat Value string
  | CallInst nat Function_h "Value list" string
  | Br nat
  | CondBr Value nat nat
  | Ret Value
  | PHI nat string "(Value \<times> nat option) list"

datatype pass =
    PromoteMemoryToRegister
  | InstructionCombining
  | Reassociate
  | GVN
  | CFGSimplification

section \<open>The generator state (class CodeGenVisitor)\<close>

text \<open>
  \<open>namedValues\<close> is a \<open>std::map\<close> from names to alloca pointers: a key can be present
  with a null pointer (\<open>Some None\<close>), which is what \<open>operator[]\<close> leaves behind when it
  is asked for a missing key. \<open>stderr\<close> collects the diagnostics, \<open>passRuns\<close> the calls
  of the function-pass manager (the function and the passes it held at that moment),
  \<open>jit\<close> the modules handed over to the JIT.
\<close>

record CodeGenVisitor =
  jitTopLevel :: bool
  debug :: bool
  jit :: "Function_h list list"
  module_fns :: "Function_h list"
  fn_blocks :: "nat \<Rightarrow> nat list"
  bb_name :: "nat \<Rightarrow> string"
  bb_parent :: "nat \<Rightarrow> Function_h option"
  bb_insts :: "nat \<Rightarrow> Instruction list"
  insertBlock :: "nat option"
  passManager :: "pass list"
  passRuns :: "(Function_h \<times> pass list) list"
  namedValues :: "string \<rightharpoonup> AllocaInst option"
  functionProtos :: "string \<rightharpoonup> PrototypeAST"
  lastValue :: "Value option"
  lastFunction :: "Function_h option"
  evaluationRes :: "double list option"
  nextHandle :: nat
  stderr :: "string list"

text \<open>
  A visit either returns (\<open>Ok\<close>) or it never does (\<open>Crash\<close>: a null pointer is
  dereferenced, an index is out of range, an assertion fails, or JIT-compiled code does
  not come back); the state in \<open>Crash\<close> is the one reached at that point.
\<close>

datatype outcome = Crash CodeGenVisitor | Ok CodeGenVisitor

text \<open>A call that also gives a value back: it never returned, or it returned the value
  and left a state.\<close>

datatype 'a returned = Died CodeGenVisitor | Returns 'a CodeGenVisitor

section \<open>The IR builder facade\<close>

definition fresh :: "CodeGenVisitor \<Rightarrow> nat \<times> CodeGenVisitor" where
  "fresh s = (nextHandle s, s\<lparr>nextHandle := Suc (nextHandle s)\<rparr>)"

text \<open>Modelled from the spec: \<open>logErrorV\<close> (not in the sources) reports the diagnostic to
  standard error and returns a null value.\<close>

definition logErrorV :: "string \<Rightarrow> CodeGenVisitor \<Rightarrow> CodeGenVisitor" where
  "logErrorV msg s = s\<lparr>stderr := stderr s @ [msg]\<rparr>"

text \<open>An instruction is appended to the insertion block; a builder without an insertion
  point creates it without inserting it anywhere.\<close>

definition insert_inst :: "Instruction \<Rightarrow> CodeGenVisitor \<Rightarrow> CodeGenVisitor" where
  "insert_inst i s =
     (case insertBlock s of
        None \<Rightarrow> s
      | Some b \<Rightarrow> s\<lparr>bb_insts := (bb_insts s)(b := bb_insts s b @ [i])\<rparr>)"

definition CreateLoad :: "AllocaInst \<Rightarrow> string \<Rightarrow> CodeGenVisitor \<Rightarrow> Value \<times> CodeGenVisitor" where
  "CreateLoad ptr nm s =
     (let (h, s1) = fresh s in (InstValue h, insert_inst (Load h ptr nm) s1))"

definition CreateStore :: "Value \<Rightarrow> AllocaInst \<Rightarrow> CodeGenVisitor \<Rightarrow> CodeGenVisitor" where
  "CreateStore v ptr s = insert_inst (Store v ptr) s"

definition CreateBinOp ::
  "binop \<Rightarrow> Value \<Rightarrow> Value \<Rightarrow> string \<Rightarrow> CodeGenVisitor \<Rightarrow> Value \<times> CodeGenVisitor" where
  "CreateBinOp bop l r nm s =
     (let (h, s1) = fresh s in (InstValue h, insert_inst (BinOp h bop l r nm) s1))"

definition CreateUIToFP :: "Value \<Rightarrow> string \<Rightarrow> CodeGenVisitor \<Rightarrow> Value \<times> CodeGenVisitor" where
  "CreateUIToFP v nm s =
     (let (h, s1) = fresh s in (InstValue h, insert_inst (UIToFP h v nm) s1))"

definition CreateCall ::
  "Function_h \<Rightarrow> Value list \<Rightarrow> string \<Rightarrow> CodeGenVisitor \<Rightarrow> Value \<times> CodeGenVisitor" where
  "CreateCall f ops nm s =
     (let (h, s1) = fresh s in (InstValue h, insert_inst (CallInst h f ops nm) s1))"

definition CreateBr :: "nat \<Rightarrow> CodeGenVisitor \<Rightarrow> CodeGenVisitor" where
  "CreateBr dest s = insert_inst (Br dest) s"

definition CreateCondBr :: "Value \<Rightarrow> nat \<Rightarrow> nat \<Rightarrow> CodeGenVisitor \<Rightarrow> CodeGenVisitor" where
  "CreateCondBr c t e s = insert_inst (CondBr c t e) s"

definition CreateRet :: "Value \<Rightarrow> CodeGenVisitor \<Rightarrow> CodeGenVisitor" where
  "CreateRet v s = insert_inst (Ret v) s"

text \<open>\<open>CreatePHI\<close> followed by the two \<open>addIncoming\<close> calls, as one request.\<close>

definition CreatePHI ::
  "string \<Rightarrow> (Value \<times> nat option) list \<Rightarrow> CodeGenVisitor \<Rightarrow> Value \<times> CodeGenVisitor" where
  "CreatePHI nm incoming s =
     (let (h, s1) = fresh s in (InstValue h, insert_inst (PHI h nm incoming) s1))"

definition SetInsertPoint :: "nat \<Rightarrow> CodeGenVisitor \<Rightarrow> CodeGenVisitor" where
  "SetInsertPoint b s = s\<lparr>insertBlock := Some b\<rparr>"

text \<open>\<open>function->getBasicBlockList().push_back(bb)\<close>.\<close>

definition push_back_block :: "Function_h \<Rightarrow> nat \<Rightarrow> CodeGenVisitor \<Rightarrow> CodeGenVisitor" where
  "push_back_block f b s =
     s\<lparr>fn_blocks := (fn_blocks s)(fn_id f := fn_blocks s (fn_id f) @ [b]),
       bb_parent := (bb_parent s)(b := Some f)\<rparr>"

text \<open>\<open>BasicBlock::Create(context, name, parent)\<close>: with a parent the block is appended to
  it, without one (a null pointer) the block is created detached.\<close>

definition BasicBlock_Create ::
  "string \<Rightarrow> Function_h option \<Rightarrow> CodeGenVisitor \<Rightarrow> nat \<times> CodeGenVisitor" where
  "BasicBlock_Create nm parent s =
     (let (b, s1) = fresh s;
          s2 = s1\<lparr>bb_name := (bb_name s1)(b := nm),
                   bb_parent := (bb_parent s1)(b := None),
                   bb_insts := (bb_insts s1)(b := [])\<rparr>
      in (b, case parent of None \<Rightarrow> s2 | Some f \<Rightarrow> push_back_block f b s2))"

text \<open>\<open>builder->GetInsertBlock()->getParent()\<close>: the outer \<open>None\<close> is the null insertion
  block, on which \<open>getParent\<close> dies.\<close>

definition GetInsertBlock_getParent :: "CodeGenVisitor \<Rightarrow> Function_h option option" where
  "GetInsertBlock_getParent s = map_option (bb_parent s) (insertBlock s)"

text \<open>Modelled from the spec: \<open>createEntryBlockAlloca\<close> (not in the sources) allocates a
  stack slot named after the variable in the entry block of the function, ahead of the
  instructions already there. \<open>None\<close>: there is no function or it has no entry block.\<close>

definition createEntryBlockAlloca ::
  "Function_h option \<Rightarrow> string \<Rightarrow> CodeGenVisitor \<Rightarrow> (AllocaInst \<times> CodeGenVisitor) option" where
  "createEntryBlockAlloca fo nm s =
     (case fo of
        None \<Rightarrow> None
      | Some f \<Rightarrow>
          (case fn_blocks s (fn_id f) of
             [] \<Rightarrow> None
           | entry # _ \<Rightarrow>
               (let (h, s1) = fresh s;
                    a = AllocaInst h nm
                in Some (a, s1\<lparr>bb_insts := (bb_insts s1)(entry := Alloca a # bb_insts s1 entry)\<rparr>))))"

text \<open>\<open>namedValues[key]\<close>: the pointer stored under the key; a missing key is inserted
  with a null pointer.\<close>

definition namedValues_index ::
  "string \<Rightarrow> CodeGenVisitor \<Rightarrow> AllocaInst option \<times> CodeGenVisitor" where
  "namedValues_index k s =
     (case namedValues s k of
        None \<Rightarrow> (None, s\<lparr>namedValues := (namedValues s)(k \<mapsto> None)\<rparr>)
      | Some p \<Rightarrow> (p, s))"

definition namedValues_assign :: "string \<Rightarrow> AllocaInst \<Rightarrow> CodeGenVisitor \<Rightarrow> CodeGenVisitor" where
  "namedValues_assign k a s = s\<lparr>namedValues := (namedValues s)(k \<mapsto> Some a)\<rparr>"

text \<open>\<open>module->getFunction(name)\<close>: the function that carries the name in the current
  module (the first one created with it).\<close>

definition module_getFunction :: "string \<Rightarrow> CodeGenVisitor \<Rightarrow> Function_h option" where
  "module_getFunction nm s = find (\<lambda>f. fn_name f = nm) (module_fns s)"

definition Function_Create :: "string \<Rightarrow> string list \<Rightarrow> CodeGenVisitor \<Rightarrow> Function_h \<times> CodeGenVisitor" where
  "Function_Create nm argNames s =
     (let (h, s1) = fresh s;
          f = \<lparr>fn_id = h, fn_name = nm, fn_args = argNames\<rparr>
      in (f, s1\<lparr>module_fns := module_fns s1 @ [f], fn_blocks := (fn_blocks s1)(h := [])\<rparr>))"

section \<open>Prototypes and function resolution\<close>

text \<open>
  \<open>visit(PrototypeAST&)\<close> and \<open>handleTopLevelExtern\<close> call each other: with the
  \<open>jitTopLevel\<close> flag set the visit hands over to the handler, which clears the flag and
  visits the node again.
\<close>

text \<open>Lines 265 to 277: a function of as many double parameters as the prototype has
  arguments, created in the current module under the prototype's name.\<close>

definition emit_PrototypeAST :: "PrototypeAST \<Rightarrow> CodeGenVisitor \<Rightarrow> CodeGenVisitor" where
  "emit_PrototypeAST node s =
     (let (func, s1) = Function_Create (getName node) (getArgs node) s
      in s1\<lparr>lastFunction := Some func\<rparr>)"

function visit_PrototypeAST :: "PrototypeAST \<Rightarrow> CodeGenVisitor \<Rightarrow> CodeGenVisitor"
  and handleTopLevelExtern :: "PrototypeAST \<Rightarrow> CodeGenVisitor \<Rightarrow> CodeGenVisitor" where
  "visit_PrototypeAST node s =
     (if jitTopLevel s then handleTopLevelExtern node s
      else emit_PrototypeAST node s)"
| "handleTopLevelExtern node s =
     (let s1 = s\<lparr>jitTopLevel := False\<rparr>;
          s2 = visit_PrototypeAST node s1
      in s2\<lparr>functionProtos := (functionProtos s2)(getName node \<mapsto> node)\<rparr>)"
  by pat_completeness auto
termination
  by (relation "measure (\<lambda>x. case x of
          Inl (n, s) \<Rightarrow> (if jitTopLevel s then 2 else 0)
        | Inr (n, s) \<Rightarrow> 1)") auto

definition getFunction :: "string \<Rightarrow> CodeGenVisitor \<Rightarrow> Function_h option \<times> CodeGenVisitor" where
  "getFunction nm s =
     (case module_getFunction nm s of
        Some f \<Rightarrow> (Some f, s)
      | None \<Rightarrow>
          (case functionProtos s nm of
             Some p \<Rightarrow> (let s1 = visit_PrototypeAST p s in (lastFunction s1, s1))
           | None \<Rightarrow> (None, s)))"

section \<open>Lowering of expressions\<close>

text \<open>The result of one of the visitor's loops: the process died, the visitor returned
  from inside the loop, or the loop ran to its end with the vector it built.\<close>

datatype 'a loop = LoopCrash CodeGenVisitor | LoopReturn CodeGenVisitor | LoopDone 'a CodeGenVisitor

text \<open>The diagnostic of line 49; its text holds two single quotes around the equals
  sign.\<close>

definition destination_msg :: string where
  "destination_msg = ''destination of '' @ [CHR 0x27, CHR ''='', CHR 0x27] @ '' must be a variable''"

text \<open>Lines 71 to 95: the switch on the operator, and the call of a user-defined
  operator behind its assertion.\<close>

definition binary_switch :: "char \<Rightarrow> Value \<Rightarrow> Value \<Rightarrow> CodeGenVisitor \<Rightarrow> outcome" where
  "binary_switch op lv rv s =
     (if op = CHR ''+'' then
        (let (v, s1) = CreateBinOp FAdd lv rv ''addtmp'' s in Ok (s1\<lparr>lastValue := Some v\<rparr>))
      else if op = CHR ''-'' then
        (let (v, s1) = CreateBinOp FSub lv rv ''subtmp'' s in Ok (s1\<lparr>lastValue := Some v\<rparr>))
      else if op = CHR ''*'' then
        (let (v, s1) = CreateBinOp FMul lv rv ''multmp'' s in Ok (s1\<lparr>lastValue := Some v\<rparr>))
      else if op = CHR ''/'' then
        (let (v, s1) = CreateBinOp FDiv lv rv ''divtmp'' s in Ok (s1\<lparr>lastValue := Some v\<rparr>))
      else if op = CHR ''<'' then
        (let (c, s1) = CreateBinOp FCmpULT lv rv ''cmptmp'' s;
             (v, s2) = CreateUIToFP c ''booltmp'' s1
         in Ok (s2\<lparr>lastValue := Some v\<rparr>))
      else
        (let (f, s1) = getFunction (''binary'' @ [op]) s
         in case f of
              None \<Rightarrow> Crash s1
            | Some fh \<Rightarrow>
                (let (v, s2) = CreateCall fh [lv, rv] ''binop'' s1
                 in Ok (s2\<lparr>lastValue := Some v\<rparr>))))"

text \<open>Lines 55 to 59: the store of an assignment, once its right-hand side is there.\<close>

definition assign_store :: "string \<Rightarrow> Value \<Rightarrow> CodeGenVisitor \<Rightarrow> outcome" where
  "assign_store lname rv s =
     (let (variable, s1) = namedValues_index lname s
      in case variable of
           None \<Rightarrow> Ok ((logErrorV ''Unknown variable name'' s1)\<lparr>lastValue := None\<rparr>)
         | Some a \<Rightarrow> Ok ((CreateStore rv a s1)\<lparr>lastValue := Some rv\<rparr>))"

text \<open>Lines 103 to 106: the call of a user-defined unary operator.\<close>

definition unary_call :: "char \<Rightarrow> Value \<Rightarrow> CodeGenVisitor \<Rightarrow> outcome" where
  "unary_call opcode expr s =
     (let (f, s1) = getFunction (''unary'' @ [opcode]) s
      in case f of
           None \<Rightarrow> Crash s1
         | Some fh \<Rightarrow>
             (let (v, s2) = CreateCall fh [expr] ''binop'' s1
              in Ok (s2\<lparr>lastValue := Some v\<rparr>)))"

text \<open>Lines 121 to 123: the store of a declared variable's initial value, the saving of the
  binding it shadows and the installation of the new one.\<close>

definition bind_var ::
  "string \<Rightarrow> AllocaInst \<Rightarrow> Value \<Rightarrow> CodeGenVisitor \<Rightarrow> AllocaInst option \<times> CodeGenVisitor" where
  "bind_var nm alloca varVal s =
     (let s1 = CreateStore varVal alloca s;
          (old, s2) = namedValues_index nm s1
      in (old, namedValues_assign nm alloca s2))"

text \<open>Lines 129 to 134: the table is cleared, then every non-null saved pointer is put
  back under the name of its alloca.\<close>

definition restore_bindings :: "AllocaInst option list \<Rightarrow> CodeGenVisitor \<Rightarrow> CodeGenVisitor" where
  "restore_bindings oldBindings s =
     s\<lparr>namedValues :=
         fold (\<lambda>alloca nv. case alloca of
                 None \<Rightarrow> nv
               | Some a \<Rightarrow> nv(alloca_getName a \<mapsto> Some a))
              oldBindings Map.empty\<rparr>"

text \<open>Lines 171 to 181 of the if: the comparison, the three blocks, the conditional branch
  and the move of the insertion point into the then block.\<close>

definition if_head ::
  "Value \<Rightarrow> Function_h option \<Rightarrow> CodeGenVisitor \<Rightarrow> (nat \<times> nat) \<times> CodeGenVisitor" where
  "if_head condVal0 fn s =
     (let (condVal, s1) = CreateBinOp FCmpONE condVal0 (ConstantFP 0) ''ifcond'' s;
          (thenBB, s2) = BasicBlock_Create ''then'' fn s1;
          (elseBB, s3) = BasicBlock_Create ''else'' None s2;
          (mergeBB, s4) = BasicBlock_Create ''ifcont'' None s3;
          s5 = CreateCondBr condVal thenBB elseBB s4
      in ((elseBB, mergeBB), SetInsertPoint thenBB s5))"

text \<open>Lines 201 to 209: the merge block and its phi.\<close>

definition if_merge ::
  "Function_h \<Rightarrow> nat \<Rightarrow> Value \<Rightarrow> nat option \<Rightarrow> Value \<Rightarrow> CodeGenVisitor \<Rightarrow> CodeGenVisitor" where
  "if_merge f mergeBB thenExpr thenEnd elseExpr s =
     (let elseEnd = insertBlock s;
          s1 = push_back_block f mergeBB s;
          s2 = SetInsertPoint mergeBB s1;
          (phiN, s3) = CreatePHI ''iftmp'' [(thenExpr, thenEnd), (elseExpr, elseEnd)] s2
      in s3\<lparr>lastValue := Some phiN\<rparr>)"

text \<open>Lines 220 to 228 of the for: the store of the start value, the loop block, the branch
  into it, and the shadowing of the loop variable. The result carries the loop block and
  the saved binding.\<close>

definition for_head ::
  "Function_h option \<Rightarrow> AllocaInst \<Rightarrow> string \<Rightarrow> Value \<Rightarrow> CodeGenVisitor
     \<Rightarrow> (nat \<times> AllocaInst option) \<times> CodeGenVisitor" where
  "for_head fn alloca varName startVal s =
     (let s1 = CreateStore startVal alloca s;
          (loopBB, s2) = BasicBlock_Create ''loop'' fn s1;
          s3 = CreateBr loopBB s2;
          s4 = SetInsertPoint loopBB s3;
          (oldVar, s5) = namedValues_index varName s4
      in ((loopBB, oldVar), namedValues_assign varName alloca s5))"

text \<open>Lines 237 to 239: the next value of the loop variable is computed and stored.\<close>

definition for_next :: "AllocaInst \<Rightarrow> Value \<Rightarrow> CodeGenVisitor \<Rightarrow> CodeGenVisitor" where
  "for_next alloca stepVal s =
     (let (variable, s1) = CreateLoad alloca [] s;
          (nextVar, s2) = CreateBinOp FAdd variable stepVal ''nextvar'' s1
      in CreateStore nextVar alloca s2)"

text \<open>Lines 243 to 256: the loop condition, the block after the loop, the conditional
  branch, and the restoring of the shadowed variable.\<close>

definition for_tail ::
  "Function_h option \<Rightarrow> nat \<Rightarrow> AllocaInst option \<Rightarrow> string \<Rightarrow> Value \<Rightarrow> CodeGenVisitor
     \<Rightarrow> CodeGenVisitor" where
  "for_tail fn loopBB oldVar varName endCond0 s =
     (let (endCond, s1) = CreateBinOp FCmpONE endCond0 (ConstantFP 0) ''loopcond'' s;
          (afterBB, s2) = BasicBlock_Create ''afterloop'' fn s1;
          s3 = CreateCondBr endCond loopBB afterBB s2;
          s4 = SetInsertPoint afterBB s3;
          s5 = (case oldVar of
                  Some a \<Rightarrow> namedValues_assign varName a s4
                | None \<Rightarrow> s4\<lparr>namedValues := (namedValues s4)(varName := None)\<rparr>)
      in s5\<lparr>lastValue := Some (ConstantFP 0)\<rparr>)"

text \<open>
  The visitor over expressions, with the loop over the declared variables (lines 113 to
  124) and the loop over the arguments of a call (lines 153 to 159). After each
  sub-expression the visitor reads \<open>lastValue\<close> and returns at once when it is null,
  except in a binary expression other than an assignment (lines 62 to 69), where both
  operands are visited before either value is looked at.
\<close>

fun visit :: "ExprAST \<Rightarrow> CodeGenVisitor \<Rightarrow> outcome"
  and visit_vars ::
    "Function_h option \<Rightarrow> (string \<times> ExprAST option) list \<Rightarrow> AllocaInst option list
       \<Rightarrow> CodeGenVisitor \<Rightarrow> (AllocaInst option list) loop"
  and visit_args :: "ExprAST list \<Rightarrow> Value list \<Rightarrow> CodeGenVisitor \<Rightarrow> (Value list) loop"
where
  "visit (NumberExprAST val) s = Ok (s\<lparr>lastValue := Some (ConstantFP val)\<rparr>)"
| "visit (VariableExprAST nm) s =
     (let (varAddress, s1) = namedValues_index nm s;
          s2 = (if varAddress = None
                then (logErrorV ''Unknown variable name'' s1)\<lparr>lastValue := None\<rparr>
                else s1)
      in case varAddress of
           None \<Rightarrow> Crash s2
         | Some a \<Rightarrow> (let (v, s3) = CreateLoad a nm s2 in Ok (s3\<lparr>lastValue := Some v\<rparr>)))"
| "visit (BinaryExprAST leftExpr rightExpr op) s =
     (if op = CHR ''='' then
        (case leftExpr of
           VariableExprAST lname \<Rightarrow>
             (case visit rightExpr s of
                Crash c \<Rightarrow> Crash c
              | Ok s1 \<Rightarrow>
                  (case lastValue s1 of
                     None \<Rightarrow> Ok s1
                   | Some rv \<Rightarrow> assign_store lname rv s1))
         | _ \<Rightarrow> Ok ((logErrorV destination_msg s)\<lparr>lastValue := None\<rparr>))
      else
        (case visit leftExpr s of
           Crash c \<Rightarrow> Crash c
         | Ok s1 \<Rightarrow>
             (case visit rightExpr s1 of
                Crash c \<Rightarrow> Crash c
              | Ok s2 \<Rightarrow>
                  (case (lastValue s1, lastValue s2) of
                     (Some lv, Some rv) \<Rightarrow> binary_switch op lv rv s2
                   | _ \<Rightarrow> Ok (s2\<lparr>lastValue := None\<rparr>)))))"
| "visit (UnaryExprAST opcode operand) s =
     (case visit operand s of
        Crash c \<Rightarrow> Crash c
      | Ok s1 \<Rightarrow>
          (case lastValue s1 of
             None \<Rightarrow> Ok s1
           | Some expr \<Rightarrow> unary_call opcode expr s1))"
| "visit (DeclarationExprAST body vars) s =
     (case GetInsertBlock_getParent s of
        None \<Rightarrow> Crash s
      | Some fn \<Rightarrow>
          (case visit_vars fn vars [] s of
             LoopCrash c \<Rightarrow> Crash c
           | LoopReturn r \<Rightarrow> Ok r
           | LoopDone oldBindings s1 \<Rightarrow>
               (case visit body s1 of
                  Crash c \<Rightarrow> Crash c
                | Ok s2 \<Rightarrow>
                    (case lastValue s2 of
                       None \<Rightarrow> Ok s2
                     | Some bodyVal \<Rightarrow>
                         Ok ((restore_bindings oldBindings s2)\<lparr>lastValue := Some bodyVal\<rparr>)))))"
| "visit (CallExprAST callee args) s =
     (let (calleeF, s1) = getFunction callee s
      in case calleeF of
           None \<Rightarrow> Ok ((logErrorV ''Function not found'' s1)\<lparr>lastValue := None\<rparr>)
         | Some f \<Rightarrow>
             (if length (fn_args f) \<noteq> length args
              then Ok ((logErrorV ''Invalid number of arguments'' s1)\<lparr>lastValue := None\<rparr>)
              else
                (case visit_args args [] s1 of
                   LoopCrash c \<Rightarrow> Crash c
                 | LoopReturn r \<Rightarrow> Ok r
                 | LoopDone argsVals s2 \<Rightarrow>
                     (let (v, s3) = CreateCall f argsVals ''calltmp'' s2
                      in Ok (s3\<lparr>lastValue := Some v\<rparr>)))))"
| "visit (IfExprAST cond ifExpr elseExpr haveElse) s =
     (case visit cond s of
        Crash c \<Rightarrow> Crash c
      | Ok s1 \<Rightarrow>
          (case lastValue s1 of
             None \<Rightarrow> Ok s1
           | Some condVal \<Rightarrow>
               (case GetInsertBlock_getParent s1 of
                  None \<Rightarrow> Crash (snd (CreateBinOp FCmpONE condVal (ConstantFP 0) ''ifcond'' s1))
                | Some fn \<Rightarrow>
                    (let ((elseBB, mergeBB), s2) = if_head condVal fn s1
                     in case visit ifExpr s2 of
                          Crash c \<Rightarrow> Crash c
                        | Ok s3 \<Rightarrow>
                            (case lastValue s3 of
                               None \<Rightarrow> Ok s3
                             | Some thenExpr \<Rightarrow>
                                 (let s4 = CreateBr mergeBB s3;
                                      thenEnd = insertBlock s4
                                  in case fn of
                                       None \<Rightarrow> Crash s4
                                     | Some f \<Rightarrow>
                                         (let s5 = SetInsertPoint elseBB (push_back_block f elseBB s4)
                                          in if haveElse then
                                               (case elseExpr of
                                                  None \<Rightarrow> Crash s5
                                                | Some e \<Rightarrow>
                                                    (case visit e s5 of
                                                       Crash c \<Rightarrow> Crash c
                                                     | Ok s6 \<Rightarrow>
                                                         (case lastValue s6 of
                                                            None \<Rightarrow> Ok s6
                                                          | Some elseVal \<Rightarrow>
                                                              Ok (if_merge f mergeBB thenExpr thenEnd elseVal
                                                                    (CreateBr mergeBB s6)))))
                                             else Ok (logErrorV ''Omitted Else are not supported yet'' s5))))))))"
| "visit (ForExprAST start step endE body varName) s =
     (case GetInsertBlock_getParent s of
        None \<Rightarrow> Crash s
      | Some fn \<Rightarrow>
          (case createEntryBlockAlloca fn varName s of
             None \<Rightarrow> Crash s
           | Some (alloca, s1) \<Rightarrow>
               (case visit start s1 of
                  Crash c \<Rightarrow> Crash c
                | Ok s2 \<Rightarrow>
                    (case lastValue s2 of
                       None \<Rightarrow> Ok s2
                     | Some startVal \<Rightarrow>
                         (let ((loopBB, oldVar), s3) = for_head fn alloca varName startVal s2
                          in case visit body s3 of
                               Crash c \<Rightarrow> Crash c
                             | Ok s4 \<Rightarrow>
                                 (case lastValue s4 of
                                    None \<Rightarrow> Ok s4
                                  | Some bodyVal \<Rightarrow>
                                      (case visit step s4 of
                                         Crash c \<Rightarrow> Crash c
                                       | Ok s5 \<Rightarrow>
                                           (case lastValue s5 of
                                              None \<Rightarrow> Ok s5
                                            | Some stepVal \<Rightarrow>
                                                (case visit endE (for_next alloca stepVal s5) of
                                                   Crash c \<Rightarrow> Crash c
                                                 | Ok s6 \<Rightarrow>
                                                     (case lastValue s6 of
                                                        None \<Rightarrow> Ok s6
                                                      | Some endCond \<Rightarrow>
                                                          Ok (for_tail fn loopBB oldVar varName endCond s6)))))))))))"
| "visit_vars fn [] oldBindings s = LoopDone oldBindings s"
| "visit_vars fn (val # vals) oldBindings s =
     (case createEntryBlockAlloca fn (fst val) s of
        None \<Rightarrow> LoopCrash s
      | Some (alloca, s1) \<Rightarrow>
          (case snd val of
             None \<Rightarrow>
               (let (old, s2) = bind_var (fst val) alloca (ConstantFP 0) s1
                in visit_vars fn vals (oldBindings @ [old]) s2)
           | Some init \<Rightarrow>
               (case visit init s1 of
                  Crash c \<Rightarrow> LoopCrash c
                | Ok s2 \<Rightarrow>
                    (case lastValue s2 of
                       None \<Rightarrow> LoopReturn s2
                     | Some varVal \<Rightarrow>
                         (let (old, s3) = bind_var (fst val) alloca varVal s2
                          in visit_vars fn vals (oldBindings @ [old]) s3)))))"
| "visit_args [] argsVals s = LoopDone argsVals s"
| "visit_args (arg # args) argsVals s =
     (case visit arg s of
        Crash c \<Rightarrow> LoopCrash c
      | Ok s1 \<Rightarrow>
          (case lastValue s1 of
             None \<Rightarrow> LoopReturn s1
           | Some v \<Rightarrow> visit_args args (argsVals @ [v]) s1))"

section \<open>Modules, the pass manager and the JIT\<close>

text \<open>Lines 360 to 375. A fresh context, module and builder (no insertion point), and a
  fresh pass manager that gets its five passes unless the \<open>debug\<close> member is set.\<close>

definition initModuleAndPassManager :: "CodeGenVisitor \<Rightarrow> CodeGenVisitor" where
  "initModuleAndPassManager s =
     s\<lparr>module_fns := [],
       insertBlock := None,
       passManager :=
         (if \<not> debug s
          then [PromoteMemoryToRegister, InstructionCombining, Reassociate, GVN, CFGSimplification]
          else [])\<rparr>"

text \<open>The constructor (lines 10 to 14): both flags cleared, an empty JIT, then
  \<open>initModuleAndPassManager\<close>. The other members start out null or empty.\<close>

definition CodeGenVisitor_new :: CodeGenVisitor where
  "CodeGenVisitor_new =
     initModuleAndPassManager
       \<lparr>jitTopLevel = False, debug = False, jit = [], module_fns = [],
        fn_blocks = (\<lambda>_. []), bb_name = (\<lambda>_. []), bb_parent = (\<lambda>_. None),
        bb_insts = (\<lambda>_. []), insertBlock = None, passManager = [], passRuns = [],
        namedValues = Map.empty, functionProtos = Map.empty, lastValue = None,
        lastFunction = None, evaluationRes = None, nextHandle = 0, stderr = []\<rparr>"

text \<open>\<open>passManager->run(*function)\<close>: the passes the manager holds are run on the
  function; the run is recorded.\<close>

definition passManager_run :: "Function_h \<Rightarrow> CodeGenVisitor \<Rightarrow> CodeGenVisitor" where
  "passManager_run f s = s\<lparr>passRuns := passRuns s @ [(f, passManager s)]\<rparr>"

text \<open>\<open>jit->addModule(std::move(module))\<close>.\<close>

definition jit_addModule :: "CodeGenVisitor \<Rightarrow> CodeGenVisitor" where
  "jit_addModule s = s\<lparr>jit := jit s @ [module_fns s]\<rparr>"

text \<open>
  The JIT itself is not part of the sources. What it does with \<open>__anon_expr\<close> once the
  module is added is a parameter of the model, a function of the generator state at
  the lookup: the symbol is not found, its address cannot be resolved, the compiled
  code returns a double, or the call never returns.
\<close>

datatype jit_result = SymbolNotFound | AddressError | Returned double | NoReturn

section \<open>Function definitions and the JIT handlers\<close>

text \<open>Lines 301 to 305: one stack slot per parameter of the IR function, named by the
  prototype's argument of the same index (an index past the prototype's arguments is out
  of range).\<close>

fun store_args :: "Function_h \<Rightarrow> string list \<Rightarrow> nat list \<Rightarrow> CodeGenVisitor \<Rightarrow> outcome" where
  "store_args f protoArgs [] s = Ok s"
| "store_args f protoArgs (i # is) s =
     (if i < length protoArgs then
        (case createEntryBlockAlloca (Some f) (protoArgs ! i) s of
           None \<Rightarrow> Crash s
         | Some (alloca, s1) \<Rightarrow>
             store_args f protoArgs is
               (namedValues_assign (protoArgs ! i) alloca (CreateStore (Argument f i) alloca s1)))
      else Crash s)"

text \<open>Lines 291 to 305: the prototype is remembered, the IR function resolved, its entry
  block opened and the table of named values rebuilt from the parameters. The result is
  the IR function and the state in which the body is lowered.\<close>

definition function_entry :: "PrototypeAST \<Rightarrow> CodeGenVisitor \<Rightarrow> Function_h returned" where
  "function_entry p s =
     (let s1 = s\<lparr>functionProtos := (functionProtos s)(getName p \<mapsto> p)\<rparr>;
          (fn, s2) = getFunction (getName p) s1;
          (bb, s3) = BasicBlock_Create ''entry'' fn s2;
          s4 = (SetInsertPoint bb s3)\<lparr>namedValues := Map.empty\<rparr>
      in case fn of
           None \<Rightarrow> Died s4
         | Some f \<Rightarrow>
             (case store_args f (getArgs p) [0..<length (fn_args f)] s4 of
                Crash c \<Rightarrow> Died c
              | Ok s5 \<Rightarrow> Returns f s5))"

text \<open>Lines 291 to 316: the emission of a function once the JIT branches are passed.\<close>

definition emit_FunctionAST :: "FunctionAST \<Rightarrow> CodeGenVisitor \<Rightarrow> outcome" where
  "emit_FunctionAST node s =
     (case function_entry (getProto node) s of
        Died c \<Rightarrow> Crash c
      | Returns f s5 \<Rightarrow>
          (case visit (getBody node) s5 of
             Crash c \<Rightarrow> Crash c
           | Ok s6 \<Rightarrow>
               (case lastValue s6 of
                  Some retVal \<Rightarrow>
                    Ok ((passManager_run f (CreateRet retVal s6))\<lparr>lastFunction := Some f\<rparr>)
                | None \<Rightarrow> Ok (s6\<lparr>lastFunction := None\<rparr>))))"

text \<open>Lines 330 to 340: the lookup of \<open>__anon_expr\<close>, the call, and the push of its
  result onto the evaluation results.\<close>

definition run_anon_expr :: "(CodeGenVisitor \<Rightarrow> jit_result) \<Rightarrow> CodeGenVisitor \<Rightarrow> outcome" where
  "run_anon_expr exec s =
     (case exec s of
        SymbolNotFound \<Rightarrow> Crash s
      | AddressError \<Rightarrow> Ok s
      | NoReturn \<Rightarrow> Crash s
      | Returned val \<Rightarrow>
          (case evaluationRes s of
             None \<Rightarrow> Crash s
           | Some res \<Rightarrow> Ok (s\<lparr>evaluationRes := Some (res @ [val])\<rparr>)))"

function visit_FunctionAST :: "(CodeGenVisitor \<Rightarrow> jit_result) \<Rightarrow> FunctionAST \<Rightarrow> CodeGenVisitor \<Rightarrow> outcome"
  and handleTopLevelExpression ::
    "(CodeGenVisitor \<Rightarrow> jit_result) \<Rightarrow> FunctionAST \<Rightarrow> CodeGenVisitor \<Rightarrow> outcome"
  and handleTopLevelDefinition ::
    "(CodeGenVisitor \<Rightarrow> jit_result) \<Rightarrow> FunctionAST \<Rightarrow> CodeGenVisitor \<Rightarrow> outcome"
where
  "visit_FunctionAST exec node s =
     (if jitTopLevel s \<and> getName (getProto node) = ''__anon_expr'' then
        handleTopLevelExpression exec node s
      else if jitTopLevel s then handleTopLevelDefinition exec node s
      else emit_FunctionAST node s)"
| "handleTopLevelExpression exec node s =
     (case visit_FunctionAST exec node (s\<lparr>jitTopLevel := False\<rparr>) of
        Crash c \<Rightarrow> Crash c
      | Ok s1 \<Rightarrow>
          (case lastFunction s1 of
             None \<Rightarrow> Ok s1
           | Some f \<Rightarrow> run_anon_expr exec (initModuleAndPassManager (jit_addModule s1))))"
| "handleTopLevelDefinition exec node s =
     visit_FunctionAST exec node
       (initModuleAndPassManager (jit_addModule (s\<lparr>jitTopLevel := False\<rparr>)))"
  by pat_completeness auto
termination
  by (relation "measure (\<lambda>x. case x of
          Inl (e, n, s) \<Rightarrow> (if jitTopLevel s then 2 else 0)
        | Inr _ \<Rightarrow> 1)")
     (auto simp: initModuleAndPassManager_def jit_addModule_def)

section \<open>The two entry points\<close>

definition accept :: "(CodeGenVisitor \<Rightarrow> jit_result) \<Rightarrow> ASTNode \<Rightarrow> CodeGenVisitor \<Rightarrow> outcome" where
  "accept exec node s =
     (case node of
        Prototype p \<Rightarrow> Ok (visit_PrototypeAST p s)
      | Function f \<Rightarrow> visit_FunctionAST exec f s)"

text \<open>Lines 16 to 25: the error line, or the printed form of the last function (here the
  function itself).\<close>

definition ppformat :: "CodeGenVisitor \<Rightarrow> string + Function_h" where
  "ppformat s =
     (case lastFunction s of
        None \<Rightarrow> Inl (''Error during compilation'' @ [CHR 0x0A])
      | Some f \<Rightarrow> Inr f)"

fun getAssembly_loop ::
  "(CodeGenVisitor \<Rightarrow> jit_result) \<Rightarrow> ASTNode option list \<Rightarrow> (string + Function_h) list
     \<Rightarrow> CodeGenVisitor \<Rightarrow> ((string + Function_h) list) returned" where
  "getAssembly_loop exec [] res s = Returns res s"
| "getAssembly_loop exec (None # astData) res s = getAssembly_loop exec astData res s"
| "getAssembly_loop exec (Some node # astData) res s =
     (case accept exec node s of
        Crash c \<Rightarrow> Died c
      | Ok s1 \<Rightarrow> getAssembly_loop exec astData (res @ [ppformat s1]) s1)"

definition getAssembly ::
  "(CodeGenVisitor \<Rightarrow> jit_result) \<Rightarrow> ASTNode option list \<Rightarrow> bool \<Rightarrow> CodeGenVisitor
     \<Rightarrow> ((string + Function_h) list) returned" where
  "getAssembly exec astData dbg s =
     (case getAssembly_loop exec astData [] (if dbg then s\<lparr>debug := True\<rparr> else s) of
        Died c \<Rightarrow> Died c
      | Returns res s1 \<Rightarrow> Returns res (s1\<lparr>debug := False\<rparr>))"

fun evaluate_loop ::
  "(CodeGenVisitor \<Rightarrow> jit_result) \<Rightarrow> ASTNode option list \<Rightarrow> CodeGenVisitor \<Rightarrow> outcome" where
  "evaluate_loop exec [] s = Ok s"
| "evaluate_loop exec (None # astData) s = evaluate_loop exec astData s"
| "evaluate_loop exec (Some node # astData) s =
     (case accept exec node (s\<lparr>jitTopLevel := True\<rparr>) of
        Crash c \<Rightarrow> Crash c
      | Ok s1 \<Rightarrow> evaluate_loop exec astData s1)"

definition evaluate ::
  "(CodeGenVisitor \<Rightarrow> jit_result) \<Rightarrow> ASTNode option list \<Rightarrow> CodeGenVisitor
     \<Rightarrow> (double list option) returned" where
  "evaluate exec astData s =
     (case evaluate_loop exec astData (s\<lparr>evaluationRes := Some []\<rparr>) of
        Crash c \<Rightarrow> Died c
      | Ok s1 \<Rightarrow> Returns (evaluationRes s1) (s1\<lparr>evaluationRes := None\<rparr>))"

section \<open>Reading outcomes, and the states the examples start from\<close>

fun returned_ok :: "outcome \<Rightarrow> bool" where
  "returned_ok (Ok s) = True"
| "returned_ok (Crash s) = False"

fun state_of :: "outcome \<Rightarrow> CodeGenVisitor" where
  "state_of (Ok s) = s"
| "state_of (Crash s) = s"

text \<open>The constructor of \<open>PrototypeAST\<close> with its default arguments.\<close>

definition PrototypeAST_new :: "string \<Rightarrow> string list \<Rightarrow> PrototypeAST" where
  "PrototypeAST_new nm argNames =
     \<lparr>getName = nm, getArgs = argNames, isOperatorProto = False, getPrecedence = 0\<rparr>"

text \<open>The state in which the body of a function with prototype \<open>p\<close> is lowered, when the
  definition is visited in state \<open>s\<close>.\<close>

definition body_state :: "PrototypeAST \<Rightarrow> CodeGenVisitor \<Rightarrow> CodeGenVisitor" where
  "body_state p s = (case function_entry p s of Returns f s1 \<Rightarrow> s1 | Died c \<Rightarrow> c)"

text \<open>Inside \<open>def g(a b)\<close>, the first definition a new generator sees.\<close>

definition two_arg_state :: CodeGenVisitor where
  "two_arg_state = body_state (PrototypeAST_new ''g'' [''a'', ''b'']) CodeGenVisitor_new"

text \<open>The doubles \<open>1.0\<close> and \<open>2.0\<close>.\<close>

definition double_1 :: double where
  "double_1 = 0x3FF0000000000000"

definition double_2 :: double where
  "double_2 = 0x4000000000000000"

fun final_state :: "'a returned \<Rightarrow> CodeGenVisitor" where
  "final_state (Returns r s) = s"
| "final_state (Died s) = s"

text \<open>Inside \<open>def f()\<close> and inside \<open>def f(x)\<close>, each the first definition a new generator
  sees.\<close>

definition no_arg_state :: CodeGenVisitor where
  "no_arg_state = body_state (PrototypeAST_new ''f'' []) CodeGenVisitor_new"

definition one_arg_state :: CodeGenVisitor where
  "one_arg_state = body_state (PrototypeAST_new ''f'' [''x'']) CodeGenVisitor_new"

text \<open>The expressions \<open>var y in 2\<close> and \<open>if 1 then 2\<close> (built by the two-argument
  constructor of \<open>IfExprAST\<close>).\<close>

definition var_y_in_2 :: ExprAST where
  "var_y_in_2 = DeclarationExprAST (NumberExprAST double_2) [(''y'', None)]"

definition if_1_then_2 :: ExprAST where
  "if_1_then_2 = IfExprAST (NumberExprAST double_1) (NumberExprAST double_2) None False"

text \<open>The definition \<open>def f() 1\<close>.\<close>

definition def_f_1 :: FunctionAST where
  "def_f_1 = \<lparr>getProto = PrototypeAST_new ''f'' [], getBody = NumberExprAST double_1\<rparr>"

fun loop_state :: "'a loop \<Rightarrow> CodeGenVisitor" where
  "loop_state (LoopCrash s) = s"
| "loop_state (LoopReturn s) = s"
| "loop_state (LoopDone x s) = s"

fun value_of :: "'a returned \<Rightarrow> 'a option" where
  "value_of (Returns r s) = Some r"
| "value_of (Died s) = None"

text \<open>The members that the lowering of expressions and functions leaves alone.\<close>

definition core ::
  "CodeGenVisitor \<Rightarrow> double list option \<times> Function_h list list \<times> pass list \<times> bool" where
  "core s = (evaluationRes s, jit s, passManager s, debug s)"

text \<open>A top-level expression as the parser wraps it: a function without parameters named
  \<open>__anon_expr\<close>.\<close>

definition anon_expr :: "ExprAST \<Rightarrow> FunctionAST" where
  "anon_expr body = \<lparr>getProto = PrototypeAST_new ''__anon_expr'' [], getBody = body\<rparr>"

text \<open>The definition \<open>def g(x) x\<close>, and the generator after it has emitted this definition
  as its first, handed the module to the JIT and started a new module.\<close>

definition def_g :: FunctionAST where
  "def_g = \<lparr>getProto = PrototypeAST_new ''g'' [''x''], getBody = VariableExprAST ''x''\<rparr>"

definition submitted_g :: CodeGenVisitor where
  "submitted_g =
     initModuleAndPassManager (jit_addModule (state_of (emit_FunctionAST def_g CodeGenVisitor_new)))"

text \<open>A short session: \<open>extern sin(x)\<close>, a null entry, and the top-level expression \<open>2\<close>.\<close>

definition session :: "ASTNode option list" where
  "session =
     [Some (Prototype (PrototypeAST_new ''sin'' [''x''])),
      None,
      Some (Function (anon_expr (NumberExprAST double_2)))]"

section \<open>What evaluate is expected to return\<close>

text \<open>
  The value of a top-level anonymous expression that is executed successfully, met in
  state \<open>s\<close>: its function is emitted, the module goes to the JIT, and the compiled code
  returns the value. \<open>None\<close> when one of these steps fails.
\<close>

definition executed_value ::
  "(CodeGenVisitor \<Rightarrow> jit_result) \<Rightarrow> FunctionAST \<Rightarrow> CodeGenVisitor \<Rightarrow> double option" where
  "executed_value exec node s =
     (case emit_FunctionAST node (s\<lparr>jitTopLevel := False\<rparr>) of
        Crash c \<Rightarrow> None
      | Ok s1 \<Rightarrow>
          (case lastFunction s1 of
             None \<Rightarrow> None
           | Some f \<Rightarrow>
               (case exec (initModuleAndPassManager (jit_addModule s1)) of
                  Returned val \<Rightarrow> Some val
                | _ \<Rightarrow> None)))"

text \<open>
  The sequence the interface promises: going through the nodes in input order, a null
  entry, an extern and a definition contribute nothing, and an anonymous expression
  contributes its value when it is executed successfully. Each node is met in the state
  the nodes before it have left.
\<close>

fun results_in_order ::
  "(CodeGenVisitor \<Rightarrow> jit_result) \<Rightarrow> ASTNode option list \<Rightarrow> CodeGenVisitor \<Rightarrow> double list" where
  "results_in_order exec [] s = []"
| "results_in_order exec (None # astData) s = results_in_order exec astData s"
| "results_in_order exec (Some (Prototype p) # astData) s =
     results_in_order exec astData
       (state_of (accept exec (Prototype p) (s\<lparr>jitTopLevel := True\<rparr>)))"
| "results_in_order exec (Some (Function f) # astData) s =
     (if getName (getProto f) = ''__anon_expr''
      then (case executed_value exec f s of Some val \<Rightarrow> [val] | None \<Rightarrow> [])
      else [])
     @ results_in_order exec astData
         (state_of (accept exec (Function f) (s\<lparr>jitTopLevel := True\<rparr>)))"

section \<open>Expressions without scopes, and invariants of the lowering\<close>

text \<open>An expression is binder-free when no \<open>var\<close> and no \<open>for\<close> occurs in it.\<close>

fun binder_free :: "ExprAST \<Rightarrow> bool" where
  "binder_free (NumberExprAST val) = True"
| "binder_free (VariableExprAST nm) = True"
| "binder_free (UnaryExprAST opcode operand) = binder_free operand"
| "binder_free (BinaryExprAST leftExpr rightExpr op) = (binder_free leftExpr \<and> binder_free rightExpr)"
| "binder_free (DeclarationExprAST body vars) = False"
| "binder_free (CallExprAST callee args) = list_all binder_free args"
| "binder_free (IfExprAST cond ifExpr elseExpr haveElse) =
     (binder_free cond \<and> binder_free ifExpr \<and> (case elseExpr of None \<Rightarrow> True | Some e \<Rightarrow> binder_free e))"
| "binder_free (ForExprAST start step endE body varName) = False"

text \<open>
  A property of the generator state is stable under the lowering when every step that the
  visitor of an expression can take keeps it: setting \<open>lastValue\<close>, adding an instruction,
  drawing a handle, reporting a diagnostic, indexing the table of named values, moving the
  insertion point, creating or appending a block, resolving a function. It is stable
  under scopes when also rewriting the table of named values and allocating a stack slot
  keep it; only \<open>var\<close> and \<open>for\<close> take these two steps.
\<close>

definition lowering_stable :: "(CodeGenVisitor \<Rightarrow> bool) \<Rightarrow> bool" where
  "lowering_stable I \<longleftrightarrow>
     (\<forall>s v. I s \<longrightarrow> I (s\<lparr>lastValue := v\<rparr>)) \<and>
     (\<forall>s i. I s \<longrightarrow> I (insert_inst i s)) \<and>
     (\<forall>s. I s \<longrightarrow> I (snd (fresh s))) \<and>
     (\<forall>s msg. I s \<longrightarrow> I (logErrorV msg s)) \<and>
     (\<forall>s k. I s \<longrightarrow> I (snd (namedValues_index k s))) \<and>
     (\<forall>s b. I s \<longrightarrow> I (SetInsertPoint b s)) \<and>
     (\<forall>s nm fo. I s \<longrightarrow> I (snd (BasicBlock_Create nm fo s))) \<and>
     (\<forall>s f b. I s \<longrightarrow> I (push_back_block f b s)) \<and>
     (\<forall>s nm. I s \<longrightarrow> I (snd (getFunction nm s)))"

definition scope_stable :: "(CodeGenVisitor \<Rightarrow> bool) \<Rightarrow> bool" where
  "scope_stable I \<longleftrightarrow>
     (\<forall>s nv. I s \<longrightarrow> I (s\<lparr>namedValues := nv\<rparr>)) \<and>
     (\<forall>s fo nm a s'. I s \<longrightarrow> createEntryBlockAlloca fo nm s = Some (a, s') \<longrightarrow> I s')"

text \<open>An outcome yields null in state \<open>s\<close>: the visit returned, in state \<open>s\<close>, with a null
  \<open>lastValue\<close>.\<close>

definition yields_null :: "outcome \<Rightarrow> CodeGenVisitor \<Rightarrow> bool" where
  "yields_null r s \<longleftrightarrow> r = Ok s \<and> lastValue s = None"

text \<open>A name is remembered when the table of prototypes has an entry for it.\<close>

definition remembered :: "string \<Rightarrow> CodeGenVisitor \<Rightarrow> bool" where
  "remembered nm s \<longleftrightarrow> functionProtos s nm \<noteq> None"

section \<open>More example expressions\<close>

text \<open>The illegal assignment \<open>1 = 1\<close>, which yields null without touching the IR, and the
  sum \<open>(1 = 1) + x\<close>.\<close>

definition bad_assignment :: ExprAST where
  "bad_assignment = BinaryExprAST (NumberExprAST double_1) (NumberExprAST double_1) (CHR ''='')"

definition null_plus_x :: ExprAST where
  "null_plus_x = BinaryExprAST bad_assignment (VariableExprAST ''x'') (CHR ''+'')"

text \<open>The loops \<open>for i = 1, (1 = 1), 1 in 1\<close>, whose end expression yields null,
  \<open>for i = 1, 1, 1 in (for i = 1, (1 = 1), 1 in 1)\<close>, whose body is that loop, and
  \<open>for i = 1, i, 1 in i\<close>. (The constructor of \<open>ForExprAST\<close> takes start, step, end, body.)\<close>

definition inner_loop :: ExprAST where
  "inner_loop = ForExprAST (NumberExprAST double_1) (NumberExprAST double_1) bad_assignment (NumberExprAST double_1) ''i''"

definition outer_loop :: ExprAST where
  "outer_loop = ForExprAST (NumberExprAST double_1) (NumberExprAST double_1) (NumberExprAST double_1) inner_loop ''i''"

definition counting_loop :: ExprAST where
  "counting_loop =
     ForExprAST (NumberExprAST double_1) (NumberExprAST double_1) (VariableExprAST ''i'')
       (VariableExprAST ''i'') ''i''"

section \<open>Prototypes and function resolution: basic facts\<close>

declare visit_PrototypeAST.simps [simp del] handleTopLevelExtern.simps [simp del]

lemma visit_PrototypeAST_plain:
  "\<not> jitTopLevel s \<Longrightarrow> visit_PrototypeAST p s = emit_PrototypeAST p s"
  by (subst visit_PrototypeAST.simps) simp

lemma visit_PrototypeAST_jit:
  "jitTopLevel s \<Longrightarrow> visit_PrototypeAST p s =
     (let s2 = emit_PrototypeAST p (s\<lparr>jitTopLevel := False\<rparr>)
      in s2\<lparr>functionProtos := (functionProtos s2)(getName p \<mapsto> p)\<rparr>)"
  apply (subst visit_PrototypeAST.simps)
  apply (simp only: if_True)
  apply (subst handleTopLevelExtern.simps)
  apply (simp add: visit_PrototypeAST_plain)
  done

lemma emit_PrototypeAST_frame:
  "bb_insts (emit_PrototypeAST p s) = bb_insts s"
  "namedValues (emit_PrototypeAST p s) = namedValues s"
  "stderr (emit_PrototypeAST p s) = stderr s"
  "insertBlock (emit_PrototypeAST p s) = insertBlock s"
  "evaluationRes (emit_PrototypeAST p s) = evaluationRes s"
  by (simp_all add: emit_PrototypeAST_def Function_Create_def fresh_def Let_def)

lemma visit_PrototypeAST_frame:
  "bb_insts (visit_PrototypeAST p s) = bb_insts s"
  "namedValues (visit_PrototypeAST p s) = namedValues s"
  "stderr (visit_PrototypeAST p s) = stderr s"
  "insertBlock (visit_PrototypeAST p s) = insertBlock s"
  "evaluationRes (visit_PrototypeAST p s) = evaluationRes s"
  by (cases "jitTopLevel s";
      simp add: visit_PrototypeAST_plain visit_PrototypeAST_jit emit_PrototypeAST_frame Let_def)+

lemma getFunction_frame:
  assumes "getFunction nm s = (r, s1)"
  shows "bb_insts s1 = bb_insts s" "namedValues s1 = namedValues s" "stderr s1 = stderr s"
    "insertBlock s1 = insertBlock s" "evaluationRes s1 = evaluationRes s"
  using assms
  by (auto simp: getFunction_def visit_PrototypeAST_frame Let_def split: option.splits)

section \<open>Stable properties are invariants of the lowering\<close>

lemma stable_prims:
  assumes "lowering_stable I" and "I s"
  shows "I (s\<lparr>lastValue := v\<rparr>)" "I (insert_inst i s)" "I (snd (fresh s))" "I (logErrorV msg s)"
    "I (snd (namedValues_index k s))" "I (SetInsertPoint b s)" "I (snd (BasicBlock_Create nm fo s))"
    "I (push_back_block f b s)" "I (snd (getFunction fnm s))"
proof -
  show "I (s\<lparr>lastValue := v\<rparr>)" using assms by (simp add: lowering_stable_def)
  show "I (insert_inst i s)" using assms by (simp add: lowering_stable_def)
  show "I (snd (fresh s))" using assms by (simp add: lowering_stable_def)
  show "I (logErrorV msg s)" using assms by (simp add: lowering_stable_def)
  show "I (snd (namedValues_index k s))" using assms by (simp add: lowering_stable_def)
  show "I (SetInsertPoint b s)" using assms by (simp add: lowering_stable_def)
  show "I (snd (BasicBlock_Create nm fo s))" using assms by (simp add: lowering_stable_def)
  show "I (push_back_block f b s)" using assms by (simp add: lowering_stable_def)
  show "I (snd (getFunction fnm s))" using assms by (simp add: lowering_stable_def)
qed

lemma stable_builder:
  assumes "lowering_stable I" and "I s"
  shows "I (snd (CreateLoad a nm s))" "I (CreateStore sv a s)" "I (snd (CreateBinOp bo l r nm s))"
    "I (snd (CreateUIToFP uv nm s))" "I (snd (CreateCall f vs nm s))" "I (CreateBr d s)"
    "I (CreateCondBr c t e s)" "I (snd (CreatePHI nm inc s))"
  using assms
  by (simp_all add: CreateLoad_def CreateStore_def CreateBinOp_def CreateUIToFP_def CreateCall_def
      CreateBr_def CreateCondBr_def CreatePHI_def split_beta stable_prims)

lemma stable_helpers:
  assumes "lowering_stable I" and "I s"
  shows "I (snd (if_head cv fn s))" "I (if_merge f m tv te ev s)" "I (for_next a stv s)"
    "I (state_of (binary_switch op lv rv s))" "I (state_of (assign_store ln rv s))"
    "I (state_of (unary_call oc ev s))"
  using assms
  by (simp_all add: if_head_def if_merge_def for_next_def binary_switch_def assign_store_def
      unary_call_def split_beta Let_def stable_prims stable_builder split: option.splits)

lemma scopes_helpers:
  assumes "lowering_stable I" and "scope_stable I" and "I s"
  shows "I (snd (bind_var nm a v s))" "I (restore_bindings old s)"
    "I (snd (for_head fn a vn sv s))" "I (for_tail fn lb ov vn ec s)"
    "I (namedValues_assign k a s)"
proof -
  have nv: "\<And>s nv. I s \<Longrightarrow> I (s\<lparr>namedValues := nv\<rparr>)"
    using assms(2) unfolding scope_stable_def by blast
  show "I (namedValues_assign k a s)"
    using assms(3) by (simp add: namedValues_assign_def nv)
  show "I (snd (bind_var nm a v s))"
    using assms by (simp add: bind_var_def split_beta Let_def namedValues_assign_def nv stable_prims stable_builder)
  show "I (restore_bindings old s)"
    using assms(3) by (simp add: restore_bindings_def nv)
  show "I (snd (for_head fn a vn sv s))"
    using assms
    by (simp add: for_head_def split_beta Let_def namedValues_assign_def nv stable_prims stable_builder)
  show "I (for_tail fn lb ov vn ec s)"
    using assms
    by (simp add: for_tail_def split_beta Let_def namedValues_assign_def nv stable_prims stable_builder
        split: option.splits)
qed

lemma scopes_alloca:
  "scope_stable I \<Longrightarrow> I s \<Longrightarrow> createEntryBlockAlloca fo nm s = Some (a, s') \<Longrightarrow> I s'"
  unfolding scope_stable_def by blast

lemma inv_bind:
  assumes "I (state_of r)" and "\<And>s1. I s1 \<Longrightarrow> I (state_of (f s1))"
  shows "I (state_of (case r of Crash c \<Rightarrow> Crash c | Ok s1 \<Rightarrow> f s1))"
  using assms by (cases r) auto

lemma inv_bind_loop:
  assumes "I (state_of r)" and "\<And>s1. I s1 \<Longrightarrow> I (loop_state (f s1))"
  shows "I (loop_state (case r of Crash c \<Rightarrow> LoopCrash c | Ok s1 \<Rightarrow> f s1))"
  using assms by (cases r) auto

lemma inv_loop_bind:
  assumes "I (loop_state l)" and "\<And>x s1. I s1 \<Longrightarrow> I (state_of (f x s1))"
  shows "I (state_of (case l of LoopCrash c \<Rightarrow> Crash c | LoopReturn r \<Rightarrow> Ok r
                      | LoopDone x s1 \<Rightarrow> f x s1))"
  using assms by (cases l) auto

lemma visit_args_inv:
  assumes "lowering_stable I" and "\<And>a s. a \<in> set args \<Longrightarrow> I s \<Longrightarrow> I (state_of (visit a s))" and "I s"
  shows "I (loop_state (visit_args args vals s))"
  using assms(2,3)
proof (induction args arbitrary: vals s)
  case Nil
  then show ?case by simp
next
  case (Cons a args)
  have ih: "\<And>vals s. I s \<Longrightarrow> I (loop_state (visit_args args vals s))"
    by (rule Cons.IH) (simp_all add: Cons.prems)
  have ia: "\<And>s. I s \<Longrightarrow> I (state_of (visit a s))"
    by (simp add: Cons.prems)
  show ?case
    apply (simp only: visit_args.simps)
    apply (rule inv_bind_loop[of I])
     apply (simp add: ia Cons.prems)
    apply (simp add: ih split: option.splits)
    done
qed

lemma visit_vars_inv:
  assumes "lowering_stable I" and "scope_stable I"
    and "\<And>x init s. x \<in> set vars \<Longrightarrow> snd x = Some init \<Longrightarrow> I s \<Longrightarrow> I (state_of (visit init s))"
    and "I s"
  shows "I (loop_state (visit_vars fn vars old s))"
  using assms(3,4)
proof (induction vars arbitrary: old s)
  case Nil
  then show ?case by simp
next
  case (Cons v vars)
  have ih: "\<And>old s. I s \<Longrightarrow> I (loop_state (visit_vars fn vars old s))"
    by (rule Cons.IH) (rule Cons.prems, simp_all)
  show ?case
  proof (cases "createEntryBlockAlloca fn (fst v) s")
    case None
    then show ?thesis using Cons.prems(2) by simp
  next
    case (Some as1)
    obtain a s1 where as1: "as1 = (a, s1)" by (cases as1)
    have c1: "I s1"
      using Some as1 scopes_alloca[OF assms(2) Cons.prems(2)] by blast
    show ?thesis
    proof (cases "snd v")
      case None
      then show ?thesis
        using Some as1 c1 by (simp add: split_beta ih scopes_helpers[OF assms(1,2)])
    next
      case (Some init)
      have iv: "\<And>s. I s \<Longrightarrow> I (state_of (visit init s))"
        using Cons.prems(1)[of v init] Some by simp
      show ?thesis
        using \<open>createEntryBlockAlloca fn (fst v) s = Some as1\<close> as1 Some
        apply (simp only: visit_vars.simps option.case prod.case)
        apply (rule inv_bind_loop[of I])
         apply (simp add: iv c1)
        apply (simp add: split_beta ih scopes_helpers[OF assms(1,2)] split: option.splits)
        done
    qed
  qed
qed


lemma visit_inv:
  assumes st: "lowering_stable I"
  shows "scope_stable I \<or> binder_free e \<Longrightarrow> I s \<Longrightarrow> I (state_of (visit e s))"
proof (induction e arbitrary: s)
  case (NumberExprAST x)
  then show ?case by (simp add: stable_prims[OF st])
next
  case (VariableExprAST x)
  then show ?case
    by (simp add: split_beta Let_def stable_prims[OF st] stable_builder[OF st] split: option.splits)
next
  case (UnaryExprAST x1 e)
  have ih: "\<And>s. I s \<Longrightarrow> I (state_of (visit e s))"
    using UnaryExprAST by auto
  show ?case
    apply (subst visit.simps(4))
    apply (rule inv_bind[of I])
     apply (simp add: ih UnaryExprAST.prems)
    apply (simp add: stable_helpers[OF st] split: option.splits)
    done
next
  case (BinaryExprAST e1 e2 x3)
  have ih1: "\<And>s. I s \<Longrightarrow> I (state_of (visit e1 s))"
    using BinaryExprAST by auto
  have ih2: "\<And>s. I s \<Longrightarrow> I (state_of (visit e2 s))"
    using BinaryExprAST by auto
  note i0 = BinaryExprAST.prems(2)
  show ?case
  proof (cases "x3 = CHR ''=''")
    case True
    show ?thesis
    proof (cases e1)
      case (VariableExprAST lname)
      show ?thesis
        apply (simp add: True VariableExprAST)
        apply (rule inv_bind[of I])
         apply (simp add: ih2 i0)
        apply (simp add: stable_helpers[OF st] split: option.splits)
        done
    qed (simp_all add: True i0 stable_prims[OF st])
  next
    case False
    show ?thesis
      apply (simp add: False)
      apply (rule inv_bind[of I])
       apply (simp add: ih1 i0)
      apply (rule inv_bind[of I])
       apply (simp add: ih2)
      apply (simp add: stable_helpers[OF st] stable_prims[OF st] split: option.splits)
      done
  qed
next
  case (DeclarationExprAST e x2)
  have sc: "scope_stable I"
    using DeclarationExprAST.prems(1) by simp
  have ih: "\<And>s. I s \<Longrightarrow> I (state_of (visit e s))"
    using DeclarationExprAST(1) sc by auto
  have vv: "\<And>fn old s. I s \<Longrightarrow> I (loop_state (visit_vars fn x2 old s))"
    apply (rule visit_vars_inv[OF st sc])
     apply (rule DeclarationExprAST(2))
         apply assumption
        apply (auto simp: snds.simps sc)
    done
  show ?case
    apply (subst visit.simps(5))
    apply (auto intro!: inv_bind[of I] inv_loop_bind[of I]
        simp: vv ih DeclarationExprAST.prems(2) scopes_helpers[OF st sc] stable_prims[OF st]
        split: option.splits)
    done
next
  case (CallExprAST x1 x2)
  have va: "\<And>vals s. I s \<Longrightarrow> I (loop_state (visit_args x2 vals s))"
    apply (rule visit_args_inv[OF st])
     apply (rule CallExprAST(1))
       apply assumption
    using CallExprAST.prems(1) apply (auto simp: list_all_iff)
    done
  show ?case
    apply (subst visit.simps(6))
    apply (auto intro!: inv_bind[of I] inv_loop_bind[of I]
        simp: va split_beta Let_def CallExprAST.prems(2) stable_prims[OF st] stable_builder[OF st]
        split: option.splits)
    done
next
  case (IfExprAST e1 e2 x3 x4)
  have ih1: "\<And>s. I s \<Longrightarrow> I (state_of (visit e1 s))"
    using IfExprAST by auto
  have ih2: "\<And>s. I s \<Longrightarrow> I (state_of (visit e2 s))"
    using IfExprAST by auto
  have ie: "\<And>e s. x3 = Some e \<Longrightarrow> I s \<Longrightarrow> I (state_of (visit e s))"
    using IfExprAST(3) IfExprAST.prems(1) by auto
  show ?case
    apply (subst visit.simps(7))
    apply (auto intro!: inv_bind[of I]
        simp: ih1 ih2 ie split_beta Let_def IfExprAST.prems(2) stable_prims[OF st]
          stable_builder[OF st] stable_helpers[OF st]
        split: option.splits)
    done
next
  case (ForExprAST e1 e2 e3 e4 x5)
  have sc: "scope_stable I"
    using ForExprAST.prems(1) by simp
  have ih1: "\<And>s. I s \<Longrightarrow> I (state_of (visit e1 s))"
    using ForExprAST(1) sc by auto
  have ih2: "\<And>s. I s \<Longrightarrow> I (state_of (visit e2 s))"
    using ForExprAST(2) sc by auto
  have ih3: "\<And>s. I s \<Longrightarrow> I (state_of (visit e3 s))"
    using ForExprAST(3) sc by auto
  have ih4: "\<And>s. I s \<Longrightarrow> I (state_of (visit e4 s))"
    using ForExprAST(4) sc by auto
  note i0 = ForExprAST.prems(2)
  show ?case
  proof (cases "GetInsertBlock_getParent s")
    case None
    then show ?thesis using i0 by simp
  next
    case (Some fn)
    show ?thesis
    proof (cases "createEntryBlockAlloca fn x5 s")
      case None
      then show ?thesis using i0 Some by simp
    next
      case (Some as1)
      obtain a s1 where as1: "as1 = (a, s1)" by (cases as1)
      have c1: "I s1"
        using Some as1 scopes_alloca[OF sc i0] by blast
      show ?thesis
        using \<open>GetInsertBlock_getParent s = Some fn\<close> Some as1
        apply (simp del: visit.simps add: visit.simps(8))
        apply (auto intro!: inv_bind[of I]
            simp: ih1 ih2 ih3 ih4 c1 split_beta Let_def stable_prims[OF st]
              stable_helpers[OF st] scopes_helpers[OF st sc]
            split: option.splits)
        done
    qed
  qed
qed

section \<open>What lowering leaves alone\<close>

lemma core_simps [simp]:
  "core (s\<lparr>lastValue := v\<rparr>) = core s"
  "core (s\<lparr>namedValues := nv\<rparr>) = core s"
  "core (s\<lparr>lastFunction := lf\<rparr>) = core s"
  "core (s\<lparr>functionProtos := fp\<rparr>) = core s"
  "core (s\<lparr>jitTopLevel := b\<rparr>) = core s"
  "core (insert_inst i s) = core s"
  "core (CreateStore sv a s) = core s"
  "core (CreateBr d s) = core s"
  "core (CreateCondBr c t e s) = core s"
  "core (CreateRet rv s) = core s"
  "core (SetInsertPoint d s) = core s"
  "core (push_back_block f d s) = core s"
  "core (logErrorV msg s) = core s"
  "core (namedValues_assign k a s) = core s"
  "core (restore_bindings old s) = core s"
  "core (passManager_run f s) = core s"
  by (simp_all add: core_def CreateStore_def CreateBr_def CreateCondBr_def CreateRet_def
      SetInsertPoint_def push_back_block_def logErrorV_def namedValues_assign_def
      restore_bindings_def passManager_run_def insert_inst_def split: option.splits)

lemma core_snd [simp]:
  "core (snd (fresh s)) = core s"
  "core (snd (CreateLoad a nm s)) = core s"
  "core (snd (CreateBinOp b l r nm s)) = core s"
  "core (snd (CreateUIToFP v nm s)) = core s"
  "core (snd (CreateCall f vs nm s)) = core s"
  "core (snd (CreatePHI nm inc s)) = core s"
  "core (snd (BasicBlock_Create nm fo s)) = core s"
  "core (snd (namedValues_index k s)) = core s"
  "core (snd (Function_Create nm as s)) = core s"
  by (simp_all add: core_def fresh_def CreateLoad_def CreateBinOp_def CreateUIToFP_def CreateCall_def
      CreatePHI_def BasicBlock_Create_def namedValues_index_def Function_Create_def
      push_back_block_def insert_inst_def Let_def split: option.splits prod.splits)

lemma core_emit_PrototypeAST [simp]: "core (emit_PrototypeAST p s) = core s"
  by (simp add: emit_PrototypeAST_def split_beta)

lemma core_visit_PrototypeAST [simp]: "core (visit_PrototypeAST p s) = core s"
  by (cases "jitTopLevel s") (simp_all add: visit_PrototypeAST_plain visit_PrototypeAST_jit Let_def)

lemma core_getFunction [simp]: "core (snd (getFunction nm s)) = core s"
  by (simp add: getFunction_def Let_def split: option.splits)

lemma core_createEntryBlockAlloca:
  "createEntryBlockAlloca fo nm s = Some (a, s') \<Longrightarrow> core s' = core s"
  by (auto simp: createEntryBlockAlloca_def core_def fresh_def Let_def split: option.splits list.splits)

lemma core_bind:
  assumes "core (state_of r) = k" and "\<And>s1. core s1 = k \<Longrightarrow> core (state_of (f s1)) = k"
  shows "core (state_of (case r of Crash c \<Rightarrow> Crash c | Ok s1 \<Rightarrow> f s1)) = k"
  using assms by (cases r) auto

lemma core_stable: "lowering_stable (\<lambda>s'. core s' = k)"
  unfolding lowering_stable_def by simp

lemma core_scope_stable: "scope_stable (\<lambda>s'. core s' = k)"
  unfolding scope_stable_def by (auto dest: core_createEntryBlockAlloca)

lemma visit_core: "core (state_of (visit e s)) = core s"
  using visit_inv[OF core_stable, of "core s" e s] core_scope_stable by simp

section \<open>The JIT handlers: basic facts\<close>

declare visit_FunctionAST.simps [simp del] handleTopLevelExpression.simps [simp del]
  handleTopLevelDefinition.simps [simp del]

lemma visit_FunctionAST_plain:
  "\<not> jitTopLevel s \<Longrightarrow> visit_FunctionAST exec node s = emit_FunctionAST node s"
  by (subst visit_FunctionAST.simps) simp

lemma visit_FunctionAST_anon:
  "jitTopLevel s \<Longrightarrow> getName (getProto node) = ''__anon_expr'' \<Longrightarrow>
   visit_FunctionAST exec node s =
     (case emit_FunctionAST node (s\<lparr>jitTopLevel := False\<rparr>) of
        Crash c \<Rightarrow> Crash c
      | Ok s1 \<Rightarrow>
          (case lastFunction s1 of
             None \<Rightarrow> Ok s1
           | Some f \<Rightarrow> run_anon_expr exec (initModuleAndPassManager (jit_addModule s1))))"
  apply (subst visit_FunctionAST.simps)
  apply (simp only: simp_thms if_True)
  apply (subst handleTopLevelExpression.simps)
  apply (simp add: visit_FunctionAST_plain)
  done

lemma visit_FunctionAST_definition:
  "jitTopLevel s \<Longrightarrow> getName (getProto node) \<noteq> ''__anon_expr'' \<Longrightarrow>
   visit_FunctionAST exec node s =
     emit_FunctionAST node (initModuleAndPassManager (jit_addModule (s\<lparr>jitTopLevel := False\<rparr>)))"
  apply (subst visit_FunctionAST.simps)
  apply (simp only: simp_thms if_True if_False)
  apply (subst handleTopLevelDefinition.simps)
  apply (simp add: visit_FunctionAST_plain initModuleAndPassManager_def jit_addModule_def)
  done

lemma core_store_args: "core (state_of (store_args f pargs is s)) = core s"
proof (induction "is" arbitrary: s)
  case Nil
  then show ?case by simp
next
  case (Cons i "is")
  show ?case
  proof (cases "createEntryBlockAlloca (Some f) (pargs ! i) s")
    case None
    then show ?thesis by simp
  next
    case (Some as1)
    then show ?thesis
      using core_createEntryBlockAlloca[of "Some f" "pargs ! i" s "fst as1" "snd as1"]
      by (simp add: Cons split_beta)
  qed
qed

lemma final_state_entry:
  "final_state (case r of Crash c \<Rightarrow> Died c | Ok s5 \<Rightarrow> Returns f s5) = state_of r"
  by (cases r) simp_all

lemma core_function_entry: "core (final_state (function_entry p s)) = core s"
  by (simp add: function_entry_def split_beta Let_def final_state_entry core_store_args
      split: option.splits)

lemma core_returned_bind:
  assumes "core (final_state r) = k" and "\<And>x s1. core s1 = k \<Longrightarrow> core (state_of (f x s1)) = k"
  shows "core (state_of (case r of Died c \<Rightarrow> Crash c | Returns x s1 \<Rightarrow> f x s1)) = k"
  using assms by (cases r) auto

lemma core_emit_FunctionAST: "core (state_of (emit_FunctionAST node s)) = core s"
  unfolding emit_FunctionAST_def
  apply (rule core_returned_bind)
   apply (rule core_function_entry)
  apply (rule core_bind)
   apply (simp add: visit_core)
  apply (simp split: option.splits)
  done

section \<open>Facts about the example states\<close>

lemma no_arg_parent:
  "GetInsertBlock_getParent no_arg_state = Some (Some \<lparr>fn_id = 0, fn_name = ''f'', fn_args = []\<rparr>)"
  by code_simp

lemma no_arg_stderr: "stderr no_arg_state = []"
  by code_simp

lemma no_arg_namedValues: "namedValues no_arg_state ''x'' = None"
  by code_simp

lemma no_arg_blocks: "fn_blocks no_arg_state 0 = [Suc 0]"
  by code_simp

lemma no_arg_handle: "nextHandle no_arg_state = 2"
  by code_simp

lemma no_arg_insert: "insertBlock no_arg_state = Some (Suc 0)"
  by code_simp

lemma no_arg_bb_parent: "bb_parent no_arg_state (Suc 0) = Some \<lparr>fn_id = 0, fn_name = ''f'', fn_args = []\<rparr>"
  by code_simp

lemma no_arg_i: "namedValues no_arg_state ''i'' = None"
  by code_simp

lemma one_arg_insert: "insertBlock one_arg_state = Some (Suc 0)"
  by code_simp

lemma one_arg_handle: "nextHandle one_arg_state = 3"
  by code_simp

lemma one_arg_x: "namedValues one_arg_state ''x'' = Some (Some (AllocaInst 2 ''x''))"
  by code_simp

lemma one_arg_insts:
  "bb_insts one_arg_state (Suc 0) =
     [Alloca (AllocaInst 2 ''x''),
      Store (Argument \<lparr>fn_id = 0, fn_name = ''f'', fn_args = [''x'']\<rparr> 0) (AllocaInst 2 ''x'')]"
  by code_simp

lemmas one_arg_facts = one_arg_insert one_arg_handle one_arg_x one_arg_insts

text \<open>The definitions of the builder facade, for running the lowering on the example
  states.\<close>

lemmas eval_defs = GetInsertBlock_getParent_def createEntryBlockAlloca_def for_head_def for_next_def
  for_tail_def CreateStore_def CreateLoad_def CreateBinOp_def CreateBr_def CreateCondBr_def
  BasicBlock_Create_def push_back_block_def SetInsertPoint_def insert_inst_def fresh_def
  namedValues_index_def namedValues_assign_def logErrorV_def Let_def

lemmas no_arg_facts = no_arg_blocks no_arg_handle no_arg_insert no_arg_bb_parent no_arg_i

lemma returned_ok_eq: "returned_ok r \<Longrightarrow> r = Ok (state_of r)"
  by (cases r) simp_all

section \<open>Scope of a declaration\<close>

text \<open>
  C1 (the code departs from it). Inside \<open>def f(x)\<close> the parameter \<open>x\<close> is bound to its
  stack slot. The declaration \<open>var y in 2\<close> is lowered without error and yields the
  constant \<open>2.0\<close>, and afterwards \<open>x\<close> has no entry in the table of named values:
  lines 129 to 134 clear the table and put back only what the declared names had
  shadowed. So \<open>(var y in 2) + x\<close>, lowered in the same state, dies on its right operand.
\<close>

theorem declaration_drops_parameter:
  "namedValues one_arg_state ''x'' = Some (Some (AllocaInst 2 ''x'')) \<and>
   returned_ok (visit var_y_in_2 one_arg_state) \<and>
   lastValue (state_of (visit var_y_in_2 one_arg_state)) = Some (ConstantFP double_2) \<and>
   namedValues (state_of (visit var_y_in_2 one_arg_state)) ''x'' = None \<and>
   \<not> returned_ok (visit (BinaryExprAST var_y_in_2 (VariableExprAST ''x'') (CHR ''+'')) one_arg_state)"
  by code_simp

section \<open>Unknown variables\<close>

text \<open>
  C2 (the code departs from it). A variable that has no stack slot in the table of named
  values (no entry, or a null one) gets its diagnostic "Unknown variable name" and a null
  \<open>lastValue\<close>, but line 36 does not return: line 39 goes on to build a load from the
  null pointer, and the visit never returns a null value to its caller.
\<close>

theorem unknown_variable_does_not_return:
  assumes "namedValues s nm = None \<or> namedValues s nm = Some None"
  shows "\<exists>c. visit (VariableExprAST nm) s = Crash c \<and>
           stderr c = stderr s @ [''Unknown variable name''] \<and> lastValue c = None"
  using assms by (auto simp: namedValues_index_def logErrorV_def)

text \<open>Inside \<open>def f()\<close> the variable \<open>x\<close> is unknown: its visit does not return, and neither
  does the visit of the definition \<open>def f() x\<close>.\<close>

theorem unknown_variable_does_not_return_witness:
  "\<not> returned_ok (visit (VariableExprAST ''x'') no_arg_state) \<and>
   stderr (state_of (visit (VariableExprAST ''x'') no_arg_state)) = [''Unknown variable name''] \<and>
   \<not> returned_ok (emit_FunctionAST
         \<lparr>getProto = PrototypeAST_new ''f'' [], getBody = VariableExprAST ''x''\<rparr> CodeGenVisitor_new)"
proof -
  have n: "namedValues no_arg_state ''x'' = None \<or> namedValues no_arg_state ''x'' = Some None"
    using no_arg_namedValues by simp
  from unknown_variable_does_not_return[OF n] obtain c where
    "visit (VariableExprAST ''x'') no_arg_state = Crash c"
    "stderr c = stderr no_arg_state @ [''Unknown variable name'']"
    by blast
  moreover have "\<not> returned_ok (emit_FunctionAST
         \<lparr>getProto = PrototypeAST_new ''f'' [], getBody = VariableExprAST ''x''\<rparr> CodeGenVisitor_new)"
    by code_simp
  ultimately show ?thesis
    using no_arg_stderr by simp
qed

section \<open>An if without else\<close>

text \<open>
  C3 (the code departs from it). When the condition and the then branch of an if without
  else clause (\<open>haveElse\<close> false) are lowered to values, the visit reports "Omitted Else
  are not supported yet" but leaves \<open>lastValue\<close> as the then branch set it: line 198
  drops the null value that \<open>logErrorV\<close> returns. The expression yields the value of its
  then branch, not a null value.
\<close>

theorem if_without_else_yields_then_value:
  assumes "visit cond s = Ok s1" and "lastValue s1 = Some condVal"
    and "GetInsertBlock_getParent s1 = Some (Some f)"
    and "if_head condVal (Some f) s1 = ((elseBB, mergeBB), s2)"
    and "visit ifExpr s2 = Ok s3" and "lastValue s3 = Some thenVal"
  shows "\<exists>s'. visit (IfExprAST cond ifExpr None False) s = Ok s' \<and>
           lastValue s' = Some thenVal \<and>
           stderr s' = stderr s3 @ [''Omitted Else are not supported yet'']"
  using assms
  by (simp add: logErrorV_def SetInsertPoint_def push_back_block_def CreateBr_def insert_inst_def
      Let_def split: option.splits)

text \<open>Inside \<open>def f()\<close>, \<open>if 1 then 2\<close> reports the error and yields the constant \<open>2.0\<close>.\<close>

theorem if_without_else_yields_then_value_witness:
  "returned_ok (visit if_1_then_2 no_arg_state) \<and>
   stderr (state_of (visit if_1_then_2 no_arg_state)) = [''Omitted Else are not supported yet''] \<and>
   lastValue (state_of (visit if_1_then_2 no_arg_state)) = Some (ConstantFP double_2)"
proof -
  let ?f = "\<lparr>fn_id = 0, fn_name = ''f'', fn_args = []\<rparr>"
  let ?s1 = "no_arg_state\<lparr>lastValue := Some (ConstantFP double_1)\<rparr>"
  let ?h = "if_head (ConstantFP double_1) (Some ?f) ?s1"
  let ?s2 = "snd ?h"
  have c: "visit (NumberExprAST double_1) no_arg_state = Ok ?s1"
    by simp
  have p: "GetInsertBlock_getParent ?s1 = Some (Some ?f)"
    using no_arg_parent by (simp add: GetInsertBlock_getParent_def)
  have h: "?h = ((fst (fst ?h), snd (fst ?h)), ?s2)"
    by simp
  have t: "visit (NumberExprAST double_2) ?s2 = Ok (?s2\<lparr>lastValue := Some (ConstantFP double_2)\<rparr>)"
    by simp
  have e: "stderr ?s2 = []"
    using no_arg_stderr
    by (simp add: if_head_def SetInsertPoint_def CreateCondBr_def BasicBlock_Create_def
        CreateBinOp_def insert_inst_def fresh_def push_back_block_def Let_def
        split: prod.splits option.splits)
  from if_without_else_yields_then_value[OF c _ p h t, of "ConstantFP double_2"] obtain s' where
    "visit (IfExprAST (NumberExprAST double_1) (NumberExprAST double_2) None False) no_arg_state = Ok s'"
    "lastValue s' = Some (ConstantFP double_2)"
    "stderr s' = stderr (?s2\<lparr>lastValue := Some (ConstantFP double_2)\<rparr>)
       @ [''Omitted Else are not supported yet'']"
    by auto
  then show ?thesis
    using e by (simp add: if_1_then_2_def)
qed

section \<open>The debug flag of getAssembly\<close>

text \<open>
  C4 (the code departs from it). The constructor builds the pass manager with its five
  passes, before \<open>getAssembly\<close> sets the \<open>debug\<close> member; \<open>getAssembly\<close> never calls
  \<open>initModuleAndPassManager\<close>, so the member is not read again. On a new generator,
  \<open>getAssembly\<close> of \<open>def f() 1\<close> with the debug flag set runs all five passes on \<open>f\<close>.
\<close>

theorem getAssembly_debug_runs_passes:
  "passManager CodeGenVisitor_new =
     [PromoteMemoryToRegister, InstructionCombining, Reassociate, GVN, CFGSimplification] \<and>
   passRuns (final_state (getAssembly (\<lambda>s. NoReturn) [Some (Function def_f_1)] True
                CodeGenVisitor_new)) =
     [(\<lparr>fn_id = 0, fn_name = ''f'', fn_args = []\<rparr>,
       [PromoteMemoryToRegister, InstructionCombining, Reassociate, GVN, CFGSimplification])]"
  by code_simp

section \<open>Operands that yield null\<close>

lemma null_unary:
  "yields_null (visit operand s) s1 \<Longrightarrow> visit (UnaryExprAST opcode operand) s = Ok s1"
  by (simp add: yields_null_def)

lemma null_assign:
  "yields_null (visit rightExpr s) s1 \<Longrightarrow>
   visit (BinaryExprAST (VariableExprAST lname) rightExpr (CHR ''='')) s = Ok s1"
  by (simp add: yields_null_def)

lemma null_binary_left:
  "op \<noteq> CHR ''='' \<Longrightarrow> yields_null (visit leftExpr s) s1 \<Longrightarrow> visit rightExpr s1 = Ok s2 \<Longrightarrow>
   visit (BinaryExprAST leftExpr rightExpr op) s = Ok (s2\<lparr>lastValue := None\<rparr>)"
  by (simp add: yields_null_def)

lemma null_binary_left_crash:
  "op \<noteq> CHR ''='' \<Longrightarrow> yields_null (visit leftExpr s) s1 \<Longrightarrow> visit rightExpr s1 = Crash c \<Longrightarrow>
   visit (BinaryExprAST leftExpr rightExpr op) s = Crash c"
  by (simp add: yields_null_def)

lemma null_binary_right:
  "op \<noteq> CHR ''='' \<Longrightarrow> visit leftExpr s = Ok s1 \<Longrightarrow> yields_null (visit rightExpr s1) s2 \<Longrightarrow>
   visit (BinaryExprAST leftExpr rightExpr op) s = Ok s2"
  by (simp add: yields_null_def split: option.splits)

lemma null_initializer:
  "createEntryBlockAlloca fn nm s = Some (alloca, s1) \<Longrightarrow> yields_null (visit init s1) s2 \<Longrightarrow>
   visit_vars fn ((nm, Some init) # vars) old s = LoopReturn s2"
  by (simp add: yields_null_def)

lemma null_declaration_vars:
  "GetInsertBlock_getParent s = Some fn \<Longrightarrow> visit_vars fn vars [] s = LoopReturn r \<Longrightarrow>
   visit (DeclarationExprAST body vars) s = Ok r"
  by simp

lemma null_declaration_body:
  "GetInsertBlock_getParent s = Some fn \<Longrightarrow> visit_vars fn vars [] s = LoopDone old s1 \<Longrightarrow>
   yields_null (visit body s1) s2 \<Longrightarrow> visit (DeclarationExprAST body vars) s = Ok s2"
  by (simp add: yields_null_def)

lemma null_argument:
  "yields_null (visit arg s) s1 \<Longrightarrow> visit_args (arg # args) vals s = LoopReturn s1"
  by (simp add: yields_null_def)

lemma null_call:
  "getFunction callee s = (Some f, s1) \<Longrightarrow> length (fn_args f) = length args \<Longrightarrow>
   visit_args args [] s1 = LoopReturn r \<Longrightarrow> visit (CallExprAST callee args) s = Ok r"
  by simp

lemma null_if_cond:
  "yields_null (visit cond s) s1 \<Longrightarrow> visit (IfExprAST cond ifExpr elseExpr haveElse) s = Ok s1"
  by (simp add: yields_null_def)

lemma null_if_then:
  "visit cond s = Ok s1 \<Longrightarrow> lastValue s1 = Some condVal \<Longrightarrow> GetInsertBlock_getParent s1 = Some fn \<Longrightarrow>
   if_head condVal fn s1 = (bbs, s2) \<Longrightarrow> yields_null (visit ifExpr s2) s3 \<Longrightarrow>
   visit (IfExprAST cond ifExpr elseExpr haveElse) s = Ok s3"
  by (cases bbs) (simp add: yields_null_def)

lemma null_if_else:
  "visit cond s = Ok s1 \<Longrightarrow> lastValue s1 = Some condVal \<Longrightarrow>
   GetInsertBlock_getParent s1 = Some (Some f) \<Longrightarrow>
   if_head condVal (Some f) s1 = ((elseBB, mergeBB), s2) \<Longrightarrow>
   visit ifExpr s2 = Ok s3 \<Longrightarrow> lastValue s3 = Some thenVal \<Longrightarrow>
   yields_null (visit e (SetInsertPoint elseBB (push_back_block f elseBB (CreateBr mergeBB s3)))) s6 \<Longrightarrow>
   visit (IfExprAST cond ifExpr (Some e) True) s = Ok s6"
  by (simp add: yields_null_def Let_def)

lemma null_for_start:
  "GetInsertBlock_getParent s = Some fn \<Longrightarrow> createEntryBlockAlloca fn varName s = Some (alloca, s1) \<Longrightarrow>
   yields_null (visit start s1) s2 \<Longrightarrow>
   visit (ForExprAST start step endE body varName) s = Ok s2"
  by (simp add: yields_null_def)

lemma null_for_body:
  "GetInsertBlock_getParent s = Some fn \<Longrightarrow> createEntryBlockAlloca fn varName s = Some (alloca, s1) \<Longrightarrow>
   visit start s1 = Ok s2 \<Longrightarrow> lastValue s2 = Some startVal \<Longrightarrow>
   for_head fn alloca varName startVal s2 = (lo, s3) \<Longrightarrow> yields_null (visit body s3) s4 \<Longrightarrow>
   visit (ForExprAST start step endE body varName) s = Ok s4"
  by (cases lo) (simp add: yields_null_def)

lemma null_for_step:
  "GetInsertBlock_getParent s = Some fn \<Longrightarrow> createEntryBlockAlloca fn varName s = Some (alloca, s1) \<Longrightarrow>
   visit start s1 = Ok s2 \<Longrightarrow> lastValue s2 = Some startVal \<Longrightarrow>
   for_head fn alloca varName startVal s2 = (lo, s3) \<Longrightarrow>
   visit body s3 = Ok s4 \<Longrightarrow> lastValue s4 = Some bodyVal \<Longrightarrow> yields_null (visit step s4) s5 \<Longrightarrow>
   visit (ForExprAST start step endE body varName) s = Ok s5"
  by (cases lo) (simp add: yields_null_def)

lemma null_for_end:
  "GetInsertBlock_getParent s = Some fn \<Longrightarrow> createEntryBlockAlloca fn varName s = Some (alloca, s1) \<Longrightarrow>
   visit start s1 = Ok s2 \<Longrightarrow> lastValue s2 = Some startVal \<Longrightarrow>
   for_head fn alloca varName startVal s2 = (lo, s3) \<Longrightarrow>
   visit body s3 = Ok s4 \<Longrightarrow> lastValue s4 = Some bodyVal \<Longrightarrow>
   visit step s4 = Ok s5 \<Longrightarrow> lastValue s5 = Some stepVal \<Longrightarrow>
   yields_null (visit endE (for_next alloca stepVal s5)) s6 \<Longrightarrow>
   visit (ForExprAST start step endE body varName) s = Ok s6"
  by (cases lo) (simp add: yields_null_def)


lemmas null_lemmas = null_unary null_assign null_binary_left null_binary_right null_initializer
    null_declaration_vars null_declaration_body null_argument null_call null_if_cond
    null_if_then null_if_else null_for_start null_for_body null_for_step null_for_end

text \<open>
  C5, as the code has it. An operand that yields null makes its parent return at once,
  in the state the operand left, so with a null \<open>lastValue\<close> and no further effect: the
  operand of a unary operator, the right-hand side of an assignment, an initializer or the
  body of a declaration, an argument of a call, the condition and the branches of an if,
  and the start, body, step and end of a for. The one exception is a binary operator other
  than the assignment: when its left operand yields null its right operand is still
  lowered, with all its effects, and only then does the expression yield null. (When the
  right operand yields null, the state is the one the right operand left.)
\<close>

theorem null_operand_propagation:
  "(yields_null (visit operand s) s1 \<longrightarrow> visit (UnaryExprAST opcode operand) s = Ok s1) \<and>
   (yields_null (visit rightExpr s) s1 \<longrightarrow>
      visit (BinaryExprAST (VariableExprAST lname) rightExpr (CHR ''='')) s = Ok s1) \<and>
   (op \<noteq> CHR ''='' \<and> yields_null (visit leftExpr s) s1 \<and> visit rightExpr s1 = Ok s2 \<longrightarrow>
      visit (BinaryExprAST leftExpr rightExpr op) s = Ok (s2\<lparr>lastValue := None\<rparr>)) \<and>
   (op \<noteq> CHR ''='' \<and> visit leftExpr s = Ok s1 \<and> yields_null (visit rightExpr s1) s2 \<longrightarrow>
      visit (BinaryExprAST leftExpr rightExpr op) s = Ok s2) \<and>
   (createEntryBlockAlloca fn nm s = Some (alloca, s1) \<and> yields_null (visit init s1) s2 \<longrightarrow>
      visit_vars fn ((nm, Some init) # vars) old s = LoopReturn s2) \<and>
   (GetInsertBlock_getParent s = Some fn \<and> visit_vars fn vars [] s = LoopReturn s1 \<longrightarrow>
      visit (DeclarationExprAST body vars) s = Ok s1) \<and>
   (GetInsertBlock_getParent s = Some fn \<and> visit_vars fn vars [] s = LoopDone old s1 \<and>
    yields_null (visit body s1) s2 \<longrightarrow>
      visit (DeclarationExprAST body vars) s = Ok s2) \<and>
   (yields_null (visit arg s) s1 \<longrightarrow> visit_args (arg # args) vals s = LoopReturn s1) \<and>
   (getFunction callee s = (Some f, s1) \<and> length (fn_args f) = length args \<and>
    visit_args args [] s1 = LoopReturn s2 \<longrightarrow>
      visit (CallExprAST callee args) s = Ok s2) \<and>
   (yields_null (visit cond s) s1 \<longrightarrow> visit (IfExprAST cond ifExpr elseExpr haveElse) s = Ok s1) \<and>
   (visit cond s = Ok s1 \<and> lastValue s1 = Some condVal \<and> GetInsertBlock_getParent s1 = Some fn \<and>
    if_head condVal fn s1 = (blocks, s2) \<and> yields_null (visit ifExpr s2) s3 \<longrightarrow>
      visit (IfExprAST cond ifExpr elseExpr haveElse) s = Ok s3) \<and>
   (visit cond s = Ok s1 \<and> lastValue s1 = Some condVal \<and>
    GetInsertBlock_getParent s1 = Some (Some f) \<and>
    if_head condVal (Some f) s1 = ((elseBB, mergeBB), s2) \<and>
    visit ifExpr s2 = Ok s3 \<and> lastValue s3 = Some thenVal \<and>
    yields_null
      (visit e (SetInsertPoint elseBB (push_back_block f elseBB (CreateBr mergeBB s3)))) s4 \<longrightarrow>
      visit (IfExprAST cond ifExpr (Some e) True) s = Ok s4) \<and>
   (GetInsertBlock_getParent s = Some fn \<and> createEntryBlockAlloca fn varName s = Some (alloca, s1) \<and>
    yields_null (visit start s1) s2 \<longrightarrow>
      visit (ForExprAST start step endE body varName) s = Ok s2) \<and>
   (GetInsertBlock_getParent s = Some fn \<and> createEntryBlockAlloca fn varName s = Some (alloca, s1) \<and>
    visit start s1 = Ok s2 \<and> lastValue s2 = Some startVal \<and>
    for_head fn alloca varName startVal s2 = (loop, s3) \<and> yields_null (visit body s3) s4 \<longrightarrow>
      visit (ForExprAST start step endE body varName) s = Ok s4) \<and>
   (GetInsertBlock_getParent s = Some fn \<and> createEntryBlockAlloca fn varName s = Some (alloca, s1) \<and>
    visit start s1 = Ok s2 \<and> lastValue s2 = Some startVal \<and>
    for_head fn alloca varName startVal s2 = (loop, s3) \<and>
    visit body s3 = Ok s4 \<and> lastValue s4 = Some bodyVal \<and> yields_null (visit step s4) s5 \<longrightarrow>
      visit (ForExprAST start step endE body varName) s = Ok s5) \<and>
   (GetInsertBlock_getParent s = Some fn \<and> createEntryBlockAlloca fn varName s = Some (alloca, s1) \<and>
    visit start s1 = Ok s2 \<and> lastValue s2 = Some startVal \<and>
    for_head fn alloca varName startVal s2 = (loop, s3) \<and>
    visit body s3 = Ok s4 \<and> lastValue s4 = Some bodyVal \<and>
    visit step s4 = Ok s5 \<and> lastValue s5 = Some stepVal \<and>
    yields_null (visit endE (for_next alloca stepVal s5)) s6 \<longrightarrow>
      visit (ForExprAST start step endE body varName) s = Ok s6)"
  by (intro conjI impI; (elim conjE)?; (rule null_lemmas; assumption))


text \<open>Inside \<open>def f(x)\<close>, the left operand of \<open>(1 = 1) + x\<close> yields null, and the sum is
  lowered to the state its right operand leaves, with the load of \<open>x\<close> added to the entry
  block.\<close>

theorem null_operand_propagation_witness:
  "yields_null (visit bad_assignment one_arg_state)
     ((logErrorV destination_msg one_arg_state)\<lparr>lastValue := None\<rparr>) \<and>
   visit null_plus_x one_arg_state =
     Ok ((state_of (visit (VariableExprAST ''x'')
                     ((logErrorV destination_msg one_arg_state)\<lparr>lastValue := None\<rparr>)))
           \<lparr>lastValue := None\<rparr>) \<and>
   bb_insts (state_of (visit null_plus_x one_arg_state)) 1 =
     bb_insts one_arg_state 1 @ [Load 3 (AllocaInst 2 ''x'') ''x'']"
proof -
  let ?s1 = "(logErrorV destination_msg one_arg_state)\<lparr>lastValue := None\<rparr>"
  let ?r = "visit (VariableExprAST ''x'') ?s1"
  have l: "yields_null (visit bad_assignment one_arg_state) ?s1"
    by (simp add: yields_null_def bad_assignment_def)
  have ok: "returned_ok ?r"
    by (simp add: eval_defs one_arg_facts)
  then have r: "?r = Ok (state_of ?r)"
    by (cases ?r) simp_all
  have op: "CHR ''+'' \<noteq> CHR ''=''"
    by simp
  have v: "visit null_plus_x one_arg_state = Ok ((state_of ?r)\<lparr>lastValue := None\<rparr>)"
    unfolding null_plus_x_def
    by (rule null_operand_propagation[where op = "CHR ''+''" and leftExpr = bad_assignment
          and s = one_arg_state and ?s1.0 = ?s1 and rightExpr = "VariableExprAST ''x''"
          and ?s2.0 = "state_of ?r", THEN conjunct2, THEN conjunct2, THEN conjunct1, THEN mp])
       (intro conjI op l r)
  have "bb_insts (state_of ?r) 1 = bb_insts one_arg_state 1 @ [Load 3 (AllocaInst 2 ''x'') ''x'']"
    by (simp add: eval_defs one_arg_facts)
  then show ?thesis
    using l v by simp
qed


text \<open>C5 as stated fails on the same input: the left operand \<open>1 = 1\<close> yields null and
  leaves the entry block with its two instructions, and the sum \<open>(1 = 1) + x\<close> yields null
  with a third instruction in the block, the load emitted for its right operand.\<close>

theorem binary_left_null_counterexample:
  "returned_ok (visit bad_assignment one_arg_state) \<and>
   lastValue (state_of (visit bad_assignment one_arg_state)) = None \<and>
   bb_insts (state_of (visit bad_assignment one_arg_state)) 1 =
     [Alloca (AllocaInst 2 ''x''),
      Store (Argument \<lparr>fn_id = 0, fn_name = ''f'', fn_args = [''x'']\<rparr> 0) (AllocaInst 2 ''x'')] \<and>
   returned_ok (visit null_plus_x one_arg_state) \<and>
   lastValue (state_of (visit null_plus_x one_arg_state)) = None \<and>
   bb_insts (state_of (visit null_plus_x one_arg_state)) 1 =
     [Alloca (AllocaInst 2 ''x''),
      Store (Argument \<lparr>fn_id = 0, fn_name = ''f'', fn_args = [''x'']\<rparr> 0) (AllocaInst 2 ''x''),
      Load 3 (AllocaInst 2 ''x'') ''x'']"
  by (simp add: null_plus_x_def bad_assignment_def eval_defs one_arg_facts)

section \<open>The three cases of getFunction\<close>

lemma getFunction_cases:
  "(\<forall>f. module_getFunction nm s = Some f \<longrightarrow> getFunction nm s = (Some f, s)) \<and>
   (\<forall>p. module_getFunction nm s = None \<and> functionProtos s nm = Some p \<longrightarrow>
      (\<exists>f s'. getFunction nm s = (Some f, s') \<and>
         f = \<lparr>fn_id = nextHandle s, fn_name = getName p, fn_args = getArgs p\<rparr> \<and>
         module_fns s' = module_fns s @ [f] \<and> jit s' = jit s)) \<and>
   (module_getFunction nm s = None \<and> functionProtos s nm = None \<longrightarrow> getFunction nm s = (None, s)) \<and>
   (functionProtos s nm \<noteq> None \<longrightarrow> fst (getFunction nm s) \<noteq> None)"
  by (cases "jitTopLevel s")
     (auto simp: getFunction_def visit_PrototypeAST_plain visit_PrototypeAST_jit emit_PrototypeAST_def
        Function_Create_def fresh_def Let_def split: option.splits)

section \<open>Remembered prototypes\<close>

text \<open>No step of the generator removes an entry of the table of prototypes, and a
  function definition adds the entry of its own name before anything else.\<close>

lemma remembered_simps [simp]:
  "remembered nm (s\<lparr>lastValue := v\<rparr>) = remembered nm s"
  "remembered nm (s\<lparr>namedValues := nv\<rparr>) = remembered nm s"
  "remembered nm (s\<lparr>lastFunction := lf\<rparr>) = remembered nm s"
  "remembered nm (s\<lparr>evaluationRes := er\<rparr>) = remembered nm s"
  "remembered nm (s\<lparr>jitTopLevel := b\<rparr>) = remembered nm s"
  "remembered nm (insert_inst i s) = remembered nm s"
  "remembered nm (snd (fresh s)) = remembered nm s"
  "remembered nm (logErrorV msg s) = remembered nm s"
  "remembered nm (snd (namedValues_index k s)) = remembered nm s"
  "remembered nm (namedValues_assign k a s) = remembered nm s"
  "remembered nm (SetInsertPoint d s) = remembered nm s"
  "remembered nm (push_back_block f d s) = remembered nm s"
  "remembered nm (snd (BasicBlock_Create bn fo s)) = remembered nm s"
  "remembered nm (CreateStore sv a s) = remembered nm s"
  "remembered nm (CreateRet rv s) = remembered nm s"
  "remembered nm (passManager_run f s) = remembered nm s"
  "remembered nm (initModuleAndPassManager s) = remembered nm s"
  "remembered nm (jit_addModule s) = remembered nm s"
  by (simp_all add: remembered_def insert_inst_def fresh_def logErrorV_def namedValues_index_def
      namedValues_assign_def SetInsertPoint_def push_back_block_def BasicBlock_Create_def
      CreateStore_def CreateRet_def passManager_run_def initModuleAndPassManager_def
      jit_addModule_def Let_def split_beta split: option.splits)

lemma remembered_update:
  "remembered nm (s\<lparr>functionProtos := (functionProtos s)(k \<mapsto> p)\<rparr>) \<longleftrightarrow> remembered nm s \<or> nm = k"
  by (auto simp: remembered_def)

lemma remembered_emit_PrototypeAST [simp]: "remembered nm (emit_PrototypeAST p s) = remembered nm s"
  by (simp add: emit_PrototypeAST_def Function_Create_def fresh_def Let_def remembered_def)

lemma remembered_visit_PrototypeAST:
  "remembered nm s \<Longrightarrow> remembered nm (visit_PrototypeAST p s)"
  by (cases "jitTopLevel s")
     (simp_all add: visit_PrototypeAST_plain visit_PrototypeAST_jit Let_def remembered_update)

lemma remembered_getFunction: "remembered nm s \<Longrightarrow> remembered nm (snd (getFunction k s))"
  by (simp add: getFunction_def Let_def remembered_visit_PrototypeAST split: option.splits)

lemma remembered_alloca:
  "createEntryBlockAlloca fo k s = Some (a, s') \<Longrightarrow> remembered nm s' = remembered nm s"
  by (auto simp: createEntryBlockAlloca_def remembered_def fresh_def Let_def
      split: option.splits list.splits)

lemma remembered_stable: "lowering_stable (remembered nm)"
  unfolding lowering_stable_def by (simp add: remembered_getFunction)

lemma remembered_scope_stable: "scope_stable (remembered nm)"
  unfolding scope_stable_def by (auto dest: remembered_alloca)

lemma visit_keeps_remembered: "remembered nm s \<Longrightarrow> remembered nm (state_of (visit e s))"
  using visit_inv[OF remembered_stable, of nm e s] remembered_scope_stable by simp

lemma store_args_keeps_remembered:
  "remembered nm s \<Longrightarrow> remembered nm (state_of (store_args f pargs is s))"
proof (induction "is" arbitrary: s)
  case Nil
  then show ?case by simp
next
  case (Cons i "is")
  show ?case
  proof (cases "createEntryBlockAlloca (Some f) (pargs ! i) s")
    case None
    then show ?thesis using Cons.prems by simp
  next
    case (Some as1)
    have "remembered nm (snd as1)"
      using remembered_alloca[of "Some f" "pargs ! i" s "fst as1" "snd as1" nm] Some Cons.prems
      by simp
    then show ?thesis
      using Some Cons.prems by (simp add: split_beta Cons.IH)
  qed
qed

lemma function_entry_remembers:
  assumes "remembered nm s \<or> nm = getName p"
  shows "remembered nm (final_state (function_entry p s))"
proof -
  let ?s1 = "s\<lparr>functionProtos := (functionProtos s)(getName p \<mapsto> p)\<rparr>"
  have 1: "remembered nm ?s1"
    using assms by (simp add: remembered_update)
  have 2: "remembered nm (snd (getFunction (getName p) ?s1))"
    using remembered_getFunction[OF 1] .
  show ?thesis
    using 2
    by (simp add: function_entry_def split_beta Let_def final_state_entry
        store_args_keeps_remembered split: option.splits)
qed

lemma remembered_bind:
  assumes "remembered nm (state_of r)" and "\<And>s1. remembered nm s1 \<Longrightarrow> remembered nm (state_of (f s1))"
  shows "remembered nm (state_of (case r of Crash c \<Rightarrow> Crash c | Ok s1 \<Rightarrow> f s1))"
  using assms by (cases r) auto

lemma remembered_returned_bind:
  assumes "remembered nm (final_state r)"
    and "\<And>x s1. remembered nm s1 \<Longrightarrow> remembered nm (state_of (f x s1))"
  shows "remembered nm (state_of (case r of Died c \<Rightarrow> Crash c | Returns x s1 \<Rightarrow> f x s1))"
  using assms by (cases r) auto

lemma emit_FunctionAST_remembers:
  assumes "remembered nm s \<or> nm = getName (getProto node)"
  shows "remembered nm (state_of (emit_FunctionAST node s))"
  unfolding emit_FunctionAST_def
  apply (rule remembered_returned_bind)
   apply (rule function_entry_remembers[OF assms])
  apply (rule remembered_bind)
   apply (simp add: visit_keeps_remembered)
  apply (simp split: option.splits)
  done

lemma run_anon_expr_remembered:
  "remembered nm s \<Longrightarrow> remembered nm (state_of (run_anon_expr exec s))"
  by (simp add: run_anon_expr_def split: jit_result.splits option.splits)

lemma accept_remembers:
  assumes "remembered nm s \<or> (\<exists>f. node = Function f \<and> nm = getName (getProto f))"
  shows "remembered nm (state_of (accept exec node s))"
proof (cases node)
  case (Prototype p)
  then show ?thesis
    using assms by (simp add: accept_def remembered_visit_PrototypeAST)
next
  case (Function f)
  have a: "\<And>s. remembered nm s \<or> nm = getName (getProto f) \<Longrightarrow>
             remembered nm (state_of (emit_FunctionAST f s))"
    by (rule emit_FunctionAST_remembers)
  have pre: "remembered nm s \<or> nm = getName (getProto f)"
    using assms Function by auto
  show ?thesis
  proof (cases "jitTopLevel s")
    case False
    then show ?thesis
      using Function a[OF pre] by (simp add: accept_def visit_FunctionAST_plain)
  next
    case True
    show ?thesis
    proof (cases "getName (getProto f) = ''__anon_expr''")
      case anon: True
      have e: "remembered nm (state_of (emit_FunctionAST f (s\<lparr>jitTopLevel := False\<rparr>)))"
        using a[of "s\<lparr>jitTopLevel := False\<rparr>"] pre by simp
      show ?thesis
        using Function True anon
        apply (simp add: accept_def visit_FunctionAST_anon)
        apply (rule remembered_bind)
         apply (rule e)
        apply (simp add: run_anon_expr_remembered split: option.splits)
        done
    next
      case False
      have "remembered nm (state_of (emit_FunctionAST f
              (initModuleAndPassManager (jit_addModule (s\<lparr>jitTopLevel := False\<rparr>)))))"
        using a[of "initModuleAndPassManager (jit_addModule (s\<lparr>jitTopLevel := False\<rparr>))"] pre
        by simp
      then show ?thesis
        using Function True False by (simp add: accept_def visit_FunctionAST_definition)
    qed
  qed
qed

lemma evaluate_loop_remembers:
  "remembered nm s \<Longrightarrow> remembered nm (state_of (evaluate_loop exec astData s))"
proof (induction astData arbitrary: s)
  case Nil
  then show ?case by simp
next
  case (Cons n astData)
  show ?case
  proof (cases n)
    case None
    then show ?thesis using Cons by simp
  next
    case (Some node)
    have a: "remembered nm (state_of (accept exec node (s\<lparr>jitTopLevel := True\<rparr>)))"
      using accept_remembers[of nm "s\<lparr>jitTopLevel := True\<rparr>" node exec] Cons.prems by simp
    show ?thesis
      using Some
      apply simp
      apply (rule remembered_bind)
       apply (rule a)
      apply (rule Cons.IH)
      apply assumption
      done
  qed
qed

section \<open>Function resolution\<close>

text \<open>
  C6. \<open>getFunction(name)\<close> returns the function of that name in the current module when
  there is one, and changes nothing. Otherwise, when the name is in the table of
  prototypes, it returns a new declaration: a function with a fresh handle that carries
  the name and the arguments of the stored prototype and is appended to the current
  module (the JIT's modules are not touched). Otherwise it returns null and changes
  nothing. So a name with a remembered prototype is resolved whatever the current
  module holds, a fresh module included; and the name of a function definition that
  went through \<open>accept\<close> is resolved after any later top-level nodes, whatever
  modules they submitted in between.
\<close>

theorem getFunction_resolution:
  "(\<forall>f. module_getFunction nm s = Some f \<longrightarrow> getFunction nm s = (Some f, s)) \<and>
   (\<forall>p. module_getFunction nm s = None \<and> functionProtos s nm = Some p \<longrightarrow>
      (\<exists>f s'. getFunction nm s = (Some f, s') \<and>
         f = \<lparr>fn_id = nextHandle s, fn_name = getName p, fn_args = getArgs p\<rparr> \<and>
         module_fns s' = module_fns s @ [f] \<and> jit s' = jit s)) \<and>
   (module_getFunction nm s = None \<and> functionProtos s nm = None \<longrightarrow> getFunction nm s = (None, s)) \<and>
   (functionProtos s nm \<noteq> None \<longrightarrow> fst (getFunction nm s) \<noteq> None) \<and>
   fst (getFunction (getName (getProto d))
          (state_of (evaluate_loop exec later (state_of (accept exec (Function d) s0))))) \<noteq> None"
proof -
  have "remembered (getName (getProto d)) (state_of (accept exec (Function d) s0))"
    by (rule accept_remembers) simp
  then have "remembered (getName (getProto d))
      (state_of (evaluate_loop exec later (state_of (accept exec (Function d) s0))))"
    by (rule evaluate_loop_remembers)
  then have "fst (getFunction (getName (getProto d))
      (state_of (evaluate_loop exec later (state_of (accept exec (Function d) s0))))) \<noteq> None"
    using getFunction_cases[of "getName (getProto d)"
        "state_of (evaluate_loop exec later (state_of (accept exec (Function d) s0)))"]
    by (simp add: remembered_def)
  then show ?thesis
    using getFunction_cases[of nm s] by simp
qed

lemma submitted_g_jit: "jit submitted_g = [[\<lparr>fn_id = 0, fn_name = ''g'', fn_args = [''x'']\<rparr>]]"
  by code_simp

lemma submitted_g_proto: "functionProtos submitted_g ''g'' = Some (PrototypeAST_new ''g'' [''x''])"
  by code_simp

lemma submitted_g_handle: "nextHandle submitted_g = 4"
  by code_simp

lemma submitted_g_no_h: "functionProtos submitted_g ''h'' = None"
  by code_simp

lemma submitted_g_module: "module_fns submitted_g = []"
  by (simp add: submitted_g_def initModuleAndPassManager_def)

lemma two_arg_state_g:
  "module_getFunction ''g'' two_arg_state = Some \<lparr>fn_id = 0, fn_name = ''g'', fn_args = [''a'', ''b'']\<rparr>"
  by code_simp

text \<open>Inside \<open>def g(a b)\<close> the name \<open>g\<close> resolves to the function being defined. After
  \<open>def g(x) x\<close> has gone to the JIT, the module is empty: \<open>g\<close> resolves to a new declaration
  in it, and \<open>h\<close>, which was never declared, is not found. After the definition of
  \<open>g\<close> and a null entry, \<open>g\<close> is resolved.\<close>

theorem getFunction_resolution_witness:
  "getFunction ''g'' two_arg_state =
     (Some \<lparr>fn_id = 0, fn_name = ''g'', fn_args = [''a'', ''b'']\<rparr>, two_arg_state) \<and>
   jit submitted_g = [[\<lparr>fn_id = 0, fn_name = ''g'', fn_args = [''x'']\<rparr>]] \<and>
   module_fns submitted_g = [] \<and>
   fst (getFunction ''g'' submitted_g) = Some \<lparr>fn_id = 4, fn_name = ''g'', fn_args = [''x'']\<rparr> \<and>
   module_fns (snd (getFunction ''g'' submitted_g)) = [\<lparr>fn_id = 4, fn_name = ''g'', fn_args = [''x'']\<rparr>] \<and>
   getFunction ''h'' submitted_g = (None, submitted_g) \<and>
   fst (getFunction ''g'' (state_of (evaluate_loop (\<lambda>_. NoReturn) [None]
          (state_of (accept (\<lambda>_. NoReturn) (Function def_g) CodeGenVisitor_new))))) \<noteq> None"
proof -
  have n: "module_getFunction ''g'' submitted_g = None" "module_getFunction ''h'' submitted_g = None"
    using submitted_g_module by (simp_all add: module_getFunction_def)
  from getFunction_resolution[where nm = "''g''" and s = two_arg_state, THEN conjunct1] two_arg_state_g
  have c1: "getFunction ''g'' two_arg_state =
     (Some \<lparr>fn_id = 0, fn_name = ''g'', fn_args = [''a'', ''b'']\<rparr>, two_arg_state)"
    by simp
  from getFunction_resolution[where nm = "''g''" and s = submitted_g, THEN conjunct2, THEN conjunct1] n(1) submitted_g_proto submitted_g_handle submitted_g_module
  have c2: "fst (getFunction ''g'' submitted_g) = Some \<lparr>fn_id = 4, fn_name = ''g'', fn_args = [''x'']\<rparr> \<and>
   module_fns (snd (getFunction ''g'' submitted_g)) = [\<lparr>fn_id = 4, fn_name = ''g'', fn_args = [''x'']\<rparr>]"
    by (auto simp: PrototypeAST_new_def)
  from getFunction_resolution[where nm = "''h''" and s = submitted_g, THEN conjunct2, THEN conjunct2, THEN conjunct1] n(2) submitted_g_no_h
  have c3: "getFunction ''h'' submitted_g = (None, submitted_g)"
    by simp
  have g: "getName (getProto def_g) = ''g''"
    by (simp add: def_g_def PrototypeAST_new_def)
  from getFunction_resolution[where d = def_g and exec = "\<lambda>_. NoReturn" and later = "[None]"
      and ?s0.0 = CodeGenVisitor_new, THEN conjunct2, THEN conjunct2, THEN conjunct2, THEN conjunct2]
  have c4: "fst (getFunction ''g'' (state_of (evaluate_loop (\<lambda>_. NoReturn) [None]
          (state_of (accept (\<lambda>_. NoReturn) (Function def_g) CodeGenVisitor_new))))) \<noteq> None"
    unfolding g .
  show ?thesis
    using c1 c2 c3 submitted_g_jit submitted_g_module by (simp only: c4 simp_thms)
qed

section \<open>The results of evaluate\<close>

lemma core_init: "evaluationRes (initModuleAndPassManager s) = evaluationRes s"
  by (simp add: initModuleAndPassManager_def)

lemma core_addModule: "evaluationRes (jit_addModule s) = evaluationRes s"
  by (simp add: jit_addModule_def)

lemma evaluationRes_emit: "evaluationRes (state_of (emit_FunctionAST node s)) = evaluationRes s"
  using core_emit_FunctionAST[of node s] by (simp add: core_def)

lemma evaluationRes_emit_Ok: "emit_FunctionAST node s = Ok s1 \<Longrightarrow> evaluationRes s1 = evaluationRes s"
  using evaluationRes_emit[of node s] by simp

lemma accept_Prototype_results:
  "evaluationRes (state_of (accept exec (Prototype p) s)) = evaluationRes s"
  using core_visit_PrototypeAST[of p s] by (simp add: accept_def core_def)

lemma accept_definition_results:
  assumes "getName (getProto f) \<noteq> ''__anon_expr''"
  shows "evaluationRes (state_of (accept exec (Function f) (s\<lparr>jitTopLevel := True\<rparr>))) = evaluationRes s"
  using assms
  by (simp add: accept_def visit_FunctionAST_definition evaluationRes_emit core_init core_addModule)

lemma accept_anon_results:
  assumes "getName (getProto f) = ''__anon_expr''"
    and "accept exec (Function f) (s\<lparr>jitTopLevel := True\<rparr>) = Ok s1"
    and "evaluationRes s = Some acc"
  shows "evaluationRes s1 =
           Some (acc @ (case executed_value exec f s of Some val \<Rightarrow> [val] | None \<Rightarrow> []))"
proof (cases "emit_FunctionAST f (s\<lparr>jitTopLevel := False\<rparr>)")
  case (Crash c)
  then show ?thesis
    using assms by (simp add: accept_def visit_FunctionAST_anon)
next
  case (Ok e)
  have ee: "evaluationRes e = Some acc"
    using evaluationRes_emit_Ok[OF Ok] assms(3) by simp
  show ?thesis
  proof (cases "lastFunction e")
    case None
    then show ?thesis
      using assms Ok ee by (simp add: accept_def visit_FunctionAST_anon executed_value_def)
  next
    case (Some lf)
    let ?j = "initModuleAndPassManager (jit_addModule e)"
    have ej: "evaluationRes ?j = Some acc"
      using ee by (simp add: core_init core_addModule)
    have r: "run_anon_expr exec ?j = Ok s1"
      using assms Ok Some by (simp add: accept_def visit_FunctionAST_anon)
    show ?thesis
      using r ej Ok Some
      by (cases "exec ?j") (auto simp: run_anon_expr_def executed_value_def)
  qed
qed

lemma evaluate_loop_results:
  "evaluate_loop exec astData s = Ok s' \<Longrightarrow> evaluationRes s = Some acc \<Longrightarrow>
   evaluationRes s' = Some (acc @ results_in_order exec astData s)"
proof (induction astData arbitrary: s acc)
  case Nil
  then show ?case by simp
next
  case (Cons n astData)
  show ?case
  proof (cases n)
    case None
    then show ?thesis using Cons by simp
  next
    case (Some node)
    obtain s1 where a: "accept exec node (s\<lparr>jitTopLevel := True\<rparr>) = Ok s1"
      and l: "evaluate_loop exec astData s1 = Ok s'"
      using Cons.prems(1) Some by (auto split: outcome.splits)
    show ?thesis
    proof (cases node)
      case (Prototype p)
      have "evaluationRes s1 = Some acc"
        using accept_Prototype_results[of exec p "s\<lparr>jitTopLevel := True\<rparr>"] a Prototype Cons.prems(2)
        by simp
      from Cons.IH[OF l this] show ?thesis
        using Some Prototype a by simp
    next
      case (Function f)
      show ?thesis
      proof (cases "getName (getProto f) = ''__anon_expr''")
        case True
        have "evaluationRes s1 =
           Some (acc @ (case executed_value exec f s of Some val \<Rightarrow> [val] | None \<Rightarrow> []))"
          using accept_anon_results[OF True _ Cons.prems(2)] a Function by simp
        from Cons.IH[OF l this] show ?thesis
          using Some Function a True by simp
      next
        case False
        have "evaluationRes s1 = Some acc"
          using accept_definition_results[OF False, of exec s] a Function Cons.prems(2) by simp
        from Cons.IH[OF l this] show ?thesis
          using Some Function a False by simp
      qed
    qed
  qed
qed


lemma emit_constant_function:
  assumes "module_getFunction (getName p) s = None" and "getArgs p = []" and "\<not> jitTopLevel s"
  shows "\<exists>s1 f. emit_FunctionAST \<lparr>getProto = p, getBody = NumberExprAST v\<rparr> s = Ok s1 \<and>
           lastFunction s1 = Some f"
  using assms
  by (simp add: emit_FunctionAST_def function_entry_def getFunction_def module_getFunction_def
      visit_PrototypeAST_plain emit_PrototypeAST_def Function_Create_def fresh_def
      BasicBlock_Create_def push_back_block_def SetInsertPoint_def Let_def split_beta)

lemma after_sin:
  "module_fns (visit_PrototypeAST (PrototypeAST_new ''sin'' [''x''])
      (CodeGenVisitor_new\<lparr>evaluationRes := Some [], jitTopLevel := True\<rparr>)) =
    [\<lparr>fn_id = 0, fn_name = ''sin'', fn_args = [''x'']\<rparr>]"
  by (simp add: visit_PrototypeAST_jit emit_PrototypeAST_def Function_Create_def fresh_def
      CodeGenVisitor_new_def initModuleAndPassManager_def PrototypeAST_new_def Let_def)



section \<open>Calls with the wrong number of arguments\<close>

text \<open>
  C8. Whenever the callee resolves to a function whose number of parameters differs
  from the number of arguments of the call, the visit returns with the diagnostic
  "Invalid number of arguments" reported and a null \<open>lastValue\<close>. The state it leaves
  is the one function resolution left, with nothing but the diagnostic and the null
  value changed: it does not depend on the argument expressions, none of which is
  lowered, and no instruction is added to any block.
\<close>

theorem call_arity_mismatch:
  assumes "getFunction callee s = (Some f, s1)" and "length (fn_args f) \<noteq> length args"
  shows "\<exists>s'. visit (CallExprAST callee args) s = Ok s' \<and>
           s' = (logErrorV ''Invalid number of arguments'' s1)\<lparr>lastValue := None\<rparr> \<and>
           lastValue s' = None \<and>
           stderr s' = stderr s @ [''Invalid number of arguments''] \<and>
           bb_insts s' = bb_insts s \<and> namedValues s' = namedValues s \<and>
           insertBlock s' = insertBlock s"
  using assms getFunction_frame[OF assms(1)] by (simp add: logErrorV_def)

text \<open>Inside \<open>def g(a b)\<close>, the call \<open>g(nowhere)\<close> has one argument for two parameters. It
  is refused before its argument is looked at: lowering the unknown variable
  \<open>nowhere\<close> would not return.\<close>

theorem call_arity_mismatch_witness:
  "fst (getFunction ''g'' two_arg_state) =
     Some \<lparr>fn_id = 0, fn_name = ''g'', fn_args = [''a'', ''b'']\<rparr> \<and>
   returned_ok (visit (CallExprAST ''g'' [VariableExprAST ''nowhere'']) two_arg_state) \<and>
   lastValue (state_of (visit (CallExprAST ''g'' [VariableExprAST ''nowhere'']) two_arg_state)) = None \<and>
   stderr (state_of (visit (CallExprAST ''g'' [VariableExprAST ''nowhere'']) two_arg_state)) =
     [''Invalid number of arguments''] \<and>
   \<not> returned_ok (visit (VariableExprAST ''nowhere'') two_arg_state)"
proof -
  let ?f = "\<lparr>fn_id = 0, fn_name = ''g'', fn_args = [''a'', ''b'']\<rparr>"
  have g: "fst (getFunction ''g'' two_arg_state) = Some ?f"
    by code_simp
  then have g': "getFunction ''g'' two_arg_state = (Some ?f, snd (getFunction ''g'' two_arg_state))"
    by (metis prod.collapse)
  have st: "stderr two_arg_state = []"
    by code_simp
  have nw: "\<not> returned_ok (visit (VariableExprAST ''nowhere'') two_arg_state)"
    by code_simp
  have ar: "length (fn_args ?f) \<noteq> length [VariableExprAST ''nowhere'']"
    by simp
  from call_arity_mismatch[OF g' ar] obtain s' where
    v: "visit (CallExprAST ''g'' [VariableExprAST ''nowhere'']) two_arg_state = Ok s'"
    and l: "lastValue s' = None"
    and e: "stderr s' = stderr two_arg_state @ [''Invalid number of arguments'']"
    by blast
  show ?thesis
    unfolding v using g l e st nw by simp
qed

section \<open>The order of a for loop\<close>

lemma insertion_stable: "lowering_stable (\<lambda>s. insertBlock s \<noteq> None)"
  unfolding lowering_stable_def
  by (auto simp: insert_inst_def fresh_def logErrorV_def namedValues_index_def SetInsertPoint_def
      BasicBlock_Create_def push_back_block_def Let_def split_beta
      getFunction_frame(4)[OF surjective_pairing] split: option.splits)

lemma insertion_scope_stable: "scope_stable (\<lambda>s. insertBlock s \<noteq> None)"
  unfolding scope_stable_def
  by (auto simp: createEntryBlockAlloca_def fresh_def Let_def split: option.splits list.splits)

lemma visit_keeps_insertion_point:
  assumes "insertBlock s \<noteq> None" and "visit e s = Ok s'"
  shows "insertBlock s' \<noteq> None"
  using visit_inv[OF insertion_stable, of e s] insertion_scope_stable assms by simp

lemma for_head_insertBlock:
  "for_head fn a v sv s = ((lb, ov), s3) \<Longrightarrow> insertBlock s3 = Some lb"
  by (auto simp: for_head_def namedValues_assign_def namedValues_index_def SetInsertPoint_def
      split_beta Let_def split: option.splits)

lemma for_next_insts:
  "insertBlock s = Some b \<Longrightarrow>
   bb_insts (for_next a stv s) b =
     bb_insts s b @ [Load (nextHandle s) a [],
                     BinOp (Suc (nextHandle s)) FAdd (InstValue (nextHandle s)) stv ''nextvar'',
                     Store (InstValue (Suc (nextHandle s))) a] \<and>
   insertBlock (for_next a stv s) = Some b"
  by (simp add: for_next_def CreateLoad_def CreateBinOp_def CreateStore_def insert_inst_def
      fresh_def Let_def)

lemma for_tail_lastValue: "lastValue (for_tail fn lb ov vn ec s) = Some (ConstantFP 0)"
  by (simp add: for_tail_def split_beta Let_def)

text \<open>
  C9. Whenever a for expression is lowered to a value, the lowering went through these
  states in this order: the stack slot and the start value; the loop block, which becomes
  the insertion point; the body, lowered there; the step, lowered in the state the body
  left; then, in the block \<open>b\<close> that is the insertion point after the step, a load of the
  slot, the addition of the step value and the store of the sum into the slot, appended to
  what the block held; and only then the end expression, lowered in that state with \<open>b\<close>
  still the insertion point, so that everything it emits comes after the store.
\<close>

theorem for_lowering_order:
  assumes "visit (ForExprAST start step endE body varName) s = Ok s'" and "lastValue s' \<noteq> None"
  shows "\<exists>fn alloca s1 s2 startVal loopBB oldVar s3 s4 s5 stepVal b s6 endCond.
     GetInsertBlock_getParent s = Some fn \<and>
     createEntryBlockAlloca fn varName s = Some (alloca, s1) \<and>
     visit start s1 = Ok s2 \<and> lastValue s2 = Some startVal \<and>
     for_head fn alloca varName startVal s2 = ((loopBB, oldVar), s3) \<and>
     insertBlock s3 = Some loopBB \<and>
     visit body s3 = Ok s4 \<and>
     visit step s4 = Ok s5 \<and> lastValue s5 = Some stepVal \<and>
     insertBlock s5 = Some b \<and>
     bb_insts (for_next alloca stepVal s5) b =
       bb_insts s5 b @ [Load (nextHandle s5) alloca [],
                        BinOp (Suc (nextHandle s5)) FAdd (InstValue (nextHandle s5)) stepVal ''nextvar'',
                        Store (InstValue (Suc (nextHandle s5))) alloca] \<and>
     insertBlock (for_next alloca stepVal s5) = Some b \<and>
     visit endE (for_next alloca stepVal s5) = Ok s6 \<and> lastValue s6 = Some endCond \<and>
     s' = for_tail fn loopBB oldVar varName endCond s6"
proof -
  obtain fn where fn: "GetInsertBlock_getParent s = Some fn"
    using assms(1) by (cases "GetInsertBlock_getParent s") auto
  obtain alloca s1 where al: "createEntryBlockAlloca fn varName s = Some (alloca, s1)"
    using assms(1) fn by (cases "createEntryBlockAlloca fn varName s") auto
  obtain s2 where s2: "visit start s1 = Ok s2"
    using assms(1) fn al by (cases "visit start s1") auto
  obtain startVal where sv: "lastValue s2 = Some startVal"
    using assms fn al s2 by (cases "lastValue s2") auto
  obtain loopBB oldVar s3 where h: "for_head fn alloca varName startVal s2 = ((loopBB, oldVar), s3)"
    by (metis prod.exhaust)
  have i3: "insertBlock s3 = Some loopBB"
    using for_head_insertBlock[OF h] .
  have v: "(case visit body s3 of
              Crash c \<Rightarrow> Crash c
            | Ok s4 \<Rightarrow>
                (case lastValue s4 of
                   None \<Rightarrow> Ok s4
                 | Some bodyVal \<Rightarrow>
                     (case visit step s4 of
                        Crash c \<Rightarrow> Crash c
                      | Ok s5 \<Rightarrow>
                          (case lastValue s5 of
                             None \<Rightarrow> Ok s5
                           | Some stepVal \<Rightarrow>
                               (case visit endE (for_next alloca stepVal s5) of
                                  Crash c \<Rightarrow> Crash c
                                | Ok s6 \<Rightarrow>
                                    (case lastValue s6 of
                                       None \<Rightarrow> Ok s6
                                     | Some endCond \<Rightarrow>
                                         Ok (for_tail fn loopBB oldVar varName endCond s6))))))) = Ok s'"
    using assms(1) fn al s2 sv h by simp
  obtain s4 where s4: "visit body s3 = Ok s4"
    using v by (cases "visit body s3") auto
  obtain bodyVal where bv: "lastValue s4 = Some bodyVal"
    using v s4 assms(2) by (cases "lastValue s4") auto
  obtain s5 where s5: "visit step s4 = Ok s5"
    using v s4 bv by (cases "visit step s4") auto
  obtain stepVal where stv: "lastValue s5 = Some stepVal"
    using v s4 bv s5 assms(2) by (cases "lastValue s5") auto
  obtain s6 where s6: "visit endE (for_next alloca stepVal s5) = Ok s6"
    using v s4 bv s5 stv by (cases "visit endE (for_next alloca stepVal s5)") auto
  obtain endCond where ec: "lastValue s6 = Some endCond"
    using v s4 bv s5 stv s6 assms(2) by (cases "lastValue s6") auto
  have fin: "s' = for_tail fn loopBB oldVar varName endCond s6"
    using v s4 bv s5 stv s6 ec by simp
  have "insertBlock s4 \<noteq> None"
    using visit_keeps_insertion_point[OF _ s4] i3 by simp
  then have "insertBlock s5 \<noteq> None"
    using visit_keeps_insertion_point[OF _ s5] by simp
  then obtain b where b: "insertBlock s5 = Some b"
    by auto
  show ?thesis
    using fn al s2 sv h i3 s4 s5 stv b for_next_insts[OF b, of alloca stepVal] s6 ec fin
    by blast
qed


text \<open>Inside \<open>def f()\<close>, the loop block of \<open>for i = 1, i, 1 in i\<close> (block 3): the load of the
  body, then load, add and store of the next value, then the load of the end expression,
  the comparison and the branch.\<close>

theorem for_lowering_order_witness:
  "returned_ok (visit counting_loop no_arg_state) \<and>
   lastValue (state_of (visit counting_loop no_arg_state)) = Some (ConstantFP 0) \<and>
   bb_insts (state_of (visit counting_loop no_arg_state)) 3 =
     [Load 4 (AllocaInst 2 ''i'') ''i'',
      Load 5 (AllocaInst 2 ''i'') [],
      BinOp 6 FAdd (InstValue 5) (ConstantFP double_1) ''nextvar'',
      Store (InstValue 6) (AllocaInst 2 ''i''),
      Load 7 (AllocaInst 2 ''i'') ''i'',
      BinOp 8 FCmpONE (InstValue 7) (ConstantFP 0) ''loopcond'',
      CondBr (InstValue 8) 3 9]"
proof -
  let ?r = "visit counting_loop no_arg_state"
  have ok: "returned_ok ?r"
    by (simp add: counting_loop_def eval_defs no_arg_facts)
  have lv: "lastValue (state_of ?r) \<noteq> None"
    by (simp add: counting_loop_def eval_defs no_arg_facts)
  have insts: "bb_insts (state_of ?r) 3 =
     [Load 4 (AllocaInst 2 ''i'') ''i'',
      Load 5 (AllocaInst 2 ''i'') [],
      BinOp 6 FAdd (InstValue 5) (ConstantFP double_1) ''nextvar'',
      Store (InstValue 6) (AllocaInst 2 ''i''),
      Load 7 (AllocaInst 2 ''i'') ''i'',
      BinOp 8 FCmpONE (InstValue 7) (ConstantFP 0) ''loopcond'',
      CondBr (InstValue 8) 3 9]"
    by (simp add: counting_loop_def eval_defs no_arg_facts)
  have eq: "visit (ForExprAST (NumberExprAST double_1) (NumberExprAST double_1) (VariableExprAST ''i'')
       (VariableExprAST ''i'') ''i'') no_arg_state = Ok (state_of ?r)"
    using returned_ok_eq[OF ok] by (simp add: counting_loop_def)
  from for_lowering_order[OF eq lv] obtain fn loopBB oldVar endCond s6 where
    "state_of ?r = for_tail fn loopBB oldVar ''i'' endCond s6"
    by blast
  then have "lastValue (state_of ?r) = Some (ConstantFP 0)"
    by (simp add: for_tail_lastValue)
  then show ?thesis
    using ok insts by simp
qed

section \<open>A for loop that fails\<close>

lemma binding_stable: "lowering_stable (\<lambda>s. namedValues s v = Some (Some a))"
  unfolding lowering_stable_def
  by (auto simp: insert_inst_def fresh_def logErrorV_def namedValues_index_def SetInsertPoint_def
      BasicBlock_Create_def push_back_block_def Let_def split_beta
      getFunction_frame(2)[OF surjective_pairing] split: option.splits)

lemma binder_free_keeps_binding:
  assumes "binder_free e" and "namedValues s v = Some (Some a)" and "visit e s = Ok s'"
  shows "namedValues s' v = Some (Some a)"
  using visit_inv[OF binding_stable[of v a], of e s] assms by simp

lemma for_next_namedValues: "namedValues (for_next a stv s) = namedValues s"
  by (simp add: for_next_def CreateLoad_def CreateBinOp_def CreateStore_def insert_inst_def
      fresh_def split_beta Let_def split: option.splits)

lemma for_head_binding:
  "for_head fn a v sv s = ((lb, ov), s3) \<Longrightarrow> namedValues s3 v = Some (Some a)"
  by (auto simp: for_head_def namedValues_assign_def split_beta Let_def)

lemma for_failure_binding:
  assumes "GetInsertBlock_getParent s = Some fn"
    and "createEntryBlockAlloca fn varName s = Some (alloca, s1)"
    and "visit start s1 = Ok s2" and "lastValue s2 \<noteq> None"
    and "binder_free body" and "binder_free step" and "binder_free endE"
    and "visit (ForExprAST start step endE body varName) s = Ok s'" and "lastValue s' = None"
  shows "namedValues s' varName = Some (Some alloca)"
proof -
  obtain sv where sv: "lastValue s2 = Some sv"
    using assms(4) by auto
  obtain lb ov s3 where h: "for_head fn alloca varName sv s2 = ((lb, ov), s3)"
    by (metis prod.exhaust)
  have b3: "namedValues s3 varName = Some (Some alloca)"
    using for_head_binding[OF h] .
  have v: "(case visit body s3 of
              Crash c \<Rightarrow> Crash c
            | Ok s4 \<Rightarrow>
                (case lastValue s4 of
                   None \<Rightarrow> Ok s4
                 | Some bodyVal \<Rightarrow>
                     (case visit step s4 of
                        Crash c \<Rightarrow> Crash c
                      | Ok s5 \<Rightarrow>
                          (case lastValue s5 of
                             None \<Rightarrow> Ok s5
                           | Some stepVal \<Rightarrow>
                               (case visit endE (for_next alloca stepVal s5) of
                                  Crash c \<Rightarrow> Crash c
                                | Ok s6 \<Rightarrow>
                                    (case lastValue s6 of
                                       None \<Rightarrow> Ok s6
                                     | Some endCond \<Rightarrow>
                                         Ok (for_tail fn lb ov varName endCond s6))))))) = Ok s'"
    using assms(8) assms(1,2,3) sv h by simp
  obtain s4 where s4: "visit body s3 = Ok s4"
    using v by (cases "visit body s3") auto
  have b4: "namedValues s4 varName = Some (Some alloca)"
    using binder_free_keeps_binding[OF assms(5) b3 s4] .
  show ?thesis
  proof (cases "lastValue s4")
    case None
    then show ?thesis using v s4 b4 by simp
  next
    case (Some bodyVal)
    obtain s5 where s5: "visit step s4 = Ok s5"
      using v s4 Some by (cases "visit step s4") auto
    have b5: "namedValues s5 varName = Some (Some alloca)"
      using binder_free_keeps_binding[OF assms(6) b4 s5] .
    show ?thesis
    proof (cases "lastValue s5")
      case None
      then show ?thesis using v s4 Some s5 b5 by simp
    next
      case (Some stepVal)
      note stv = Some
      obtain s6 where s6: "visit endE (for_next alloca stepVal s5) = Ok s6"
        using v s4 \<open>lastValue s4 = Some bodyVal\<close> s5 stv
        by (cases "visit endE (for_next alloca stepVal s5)") auto
      have b6: "namedValues s6 varName = Some (Some alloca)"
        using binder_free_keeps_binding[OF assms(7) _ s6] b5 by (simp add: for_next_namedValues)
      show ?thesis
      proof (cases "lastValue s6")
        case None
        then show ?thesis
          using v s4 \<open>lastValue s4 = Some bodyVal\<close> s5 stv s6 b6 by simp
      next
        case (Some endCond)
        then have "s' = for_tail fn lb ov varName endCond s6"
          using v s4 \<open>lastValue s4 = Some bodyVal\<close> s5 stv s6 by simp
        then have "lastValue s' \<noteq> None"
          by (simp add: for_tail_def split_beta Let_def)
        then show ?thesis using assms(9) by simp
      qed
    qed
  qed
qed


text \<open>
  C10, as the code has it. When the start expression of a for is lowered to a value and
  then its body, step or end yields null, the visitor returns early without restoring the
  shadowed binding. If body, step and end are binder-free (no nested \<open>var\<close> or \<open>for\<close>, which
  would rebind or clear the name themselves), the table of named values still maps the
  loop variable to the loop's stack slot afterwards, whether or not the name had an outer
  binding.
\<close>

theorem for_failure_keeps_loop_slot:
  assumes "GetInsertBlock_getParent s = Some fn"
    and "createEntryBlockAlloca fn varName s = Some (alloca, s1)"
    and "visit start s1 = Ok s2" and "lastValue s2 \<noteq> None"
    and "binder_free body" and "binder_free step" and "binder_free endE"
    and "visit (ForExprAST start step endE body varName) s = Ok s'" and "lastValue s' = None"
  shows "namedValues s' varName = Some (Some alloca)"
  using assms by (rule for_failure_binding)

text \<open>Inside \<open>def f()\<close>, where \<open>i\<close> is unbound, \<open>for i = 1, (1 = 1), 1 in 1\<close> fails in its end
  expression and leaves \<open>i\<close> bound to the loop's slot (handle 2).\<close>

theorem for_failure_keeps_loop_slot_witness:
  "map_option fst (createEntryBlockAlloca (Some \<lparr>fn_id = 0, fn_name = ''f'', fn_args = []\<rparr>) ''i''
      no_arg_state) = Some (AllocaInst 2 ''i'') \<and>
   namedValues no_arg_state ''i'' = None \<and>
   returned_ok (visit inner_loop no_arg_state) \<and>
   lastValue (state_of (visit inner_loop no_arg_state)) = None \<and>
   namedValues (state_of (visit inner_loop no_arg_state)) ''i'' = Some (Some (AllocaInst 2 ''i''))"
proof -
  let ?f = "\<lparr>fn_id = 0, fn_name = ''f'', fn_args = []\<rparr>"
  let ?s1 = "no_arg_state\<lparr>nextHandle := 3,
               bb_insts := (bb_insts no_arg_state)
                 (Suc 0 := Alloca (AllocaInst 2 ''i'') # bb_insts no_arg_state (Suc 0))\<rparr>"
  let ?r = "visit inner_loop no_arg_state"
  have p: "GetInsertBlock_getParent no_arg_state = Some (Some ?f)"
    by (simp add: eval_defs no_arg_facts)
  have al: "createEntryBlockAlloca (Some ?f) ''i'' no_arg_state = Some (AllocaInst 2 ''i'', ?s1)"
    by (simp add: eval_defs no_arg_facts)
  have st: "visit (NumberExprAST double_1) ?s1 = Ok (?s1\<lparr>lastValue := Some (ConstantFP double_1)\<rparr>)"
    by simp
  have lv: "lastValue (?s1\<lparr>lastValue := Some (ConstantFP double_1)\<rparr>) \<noteq> None"
    by simp
  have bf: "binder_free (NumberExprAST double_1)" "binder_free bad_assignment"
    by (simp_all add: bad_assignment_def)
  have ok: "returned_ok ?r"
    by (simp add: inner_loop_def bad_assignment_def eval_defs no_arg_facts)
  have v: "visit (ForExprAST (NumberExprAST double_1) (NumberExprAST double_1) bad_assignment
             (NumberExprAST double_1) ''i'') no_arg_state = Ok (state_of ?r)"
    using returned_ok_eq[OF ok] by (simp add: inner_loop_def)
  have ln: "lastValue (state_of ?r) = None"
    by (simp add: inner_loop_def bad_assignment_def eval_defs no_arg_facts)
  have "namedValues (state_of ?r) ''i'' = Some (Some (AllocaInst 2 ''i''))"
    by (rule for_failure_keeps_loop_slot[OF p al st lv bf(1) bf(1) bf(2) v ln])
  then show ?thesis
    using al ok ln no_arg_i by simp
qed

text \<open>C10 as stated fails when the body is itself a failing loop over the same name:
  the outer loop's slot has handle 2, its body yields null, and afterwards \<open>i\<close> is bound to
  the slot of the inner loop (handle 4).\<close>

theorem nested_loop_counterexample:
  "map_option fst (createEntryBlockAlloca (Some \<lparr>fn_id = 0, fn_name = ''f'', fn_args = []\<rparr>) ''i''
      no_arg_state) = Some (AllocaInst 2 ''i'') \<and>
   returned_ok (visit outer_loop no_arg_state) \<and>
   lastValue (state_of (visit outer_loop no_arg_state)) = None \<and>
   namedValues (state_of (visit outer_loop no_arg_state)) ''i'' = Some (Some (AllocaInst 4 ''i'')) \<and>
   namedValues (state_of (visit outer_loop no_arg_state)) ''i'' \<noteq> Some (Some (AllocaInst 2 ''i''))"
  by (simp add: outer_loop_def inner_loop_def bad_assignment_def eval_defs no_arg_facts)

end
